theory Spec2Isabelle
  imports Complex_Main "HOL-Library.Sublist" "HOL-Library.Multiset" "HOL-Library.Product_Lexorder"
    "HOL-Library.Log_Nat"
begin

section \<open>Values of the host language and of the store\<close>

text \<open>
  \<open>datetime\<close> is a naive UTC instant of Python's \<open>datetime\<close> class, counted in
  microseconds since 0001-01-01T00:00:00. The class represents the instants from
  \<open>datetime.min\<close> (0) to \<open>datetime.max\<close> (9999-12-31T23:59:59.999999).

  A Python \<open>float\<close> or a \<open>float8\<close> of the store is the real number it stands for.
\<close>

type_synonym datetime = int

definition datetime_max :: datetime where
  "datetime_max = 315537897599999999"

definition hour_us :: int where
  "hour_us = 3600000000"

text \<open>
  \<open>fl x\<close> is the binary64 number nearest to \<open>x\<close>, ties to the even significand:
  the result of every floating-point operation is \<open>fl\<close> of the exact result. The
  significand has 53 bits; the exponent is not bounded, so overflow and subnormal
  numbers are not represented (the numbers here are counts, rates and latencies).
  \<open>p2 e\<close> is the power of two with exponent \<open>e\<close>, and \<open>fl_exp a\<close> the exponent of
  the power of two at or below a positive \<open>a\<close>.
\<close>

definition round_half_even :: "real \<Rightarrow> int" where
  "round_half_even y =
     (let f = \<lfloor>y\<rfloor>; d = y - of_int f
      in if d < 1 / 2 then f
         else if 1 / 2 < d then f + 1
         else if even f then f else f + 1)"

definition p2 :: "int \<Rightarrow> real" where
  "p2 e = (if 0 \<le> e then 2 ^ nat e else 1 / 2 ^ nat (- e))"

definition fl_exp :: "real \<Rightarrow> int" where
  "fl_exp a = (if 1 \<le> a then bitlen \<lfloor>a\<rfloor> - 1 else - bitlen (\<lceil>1 / a\<rceil> - 1))"

definition fl :: "real \<Rightarrow> real" where
  "fl x =
     (if x = 0 then 0
      else (let a = \<bar>x\<bar>;
                e = fl_exp a - 52;
                r = of_int (round_half_even (a / p2 e)) * p2 e
            in if x < 0 then - r else r))"

text \<open>The exceptions that the modelled code paths can meet.\<close>

datatype py_exception =
    OverflowError
  | ZeroDivisionError
  | OperationalError
  | DataError
  | InternalError
  | ValueError
  | TypeError
  | ClientError string

fun exc_str :: "py_exception \<Rightarrow> string" where
  "exc_str OverflowError = ''date value out of range''"
| "exc_str ZeroDivisionError = ''division by zero''"
| "exc_str OperationalError = ''could not connect to server''"
| "exc_str DataError = ''value rejected by the store''"
| "exc_str InternalError = ''current transaction is aborted''"
| "exc_str ValueError = ''A string literal cannot contain NUL (0x00) characters.''"
| "exc_str TypeError = ''float() argument must be a string or a real number''"
| "exc_str (ClientError m) = m"

section \<open>Record model: class \<open>APIRequest\<close>\<close>

text \<open>
  \<open>APIRequest_new\<close> is the object as the constructor call in \<open>log_response\<close> builds it:
  the columns \<open>id\<close> and \<open>timestamp\<close> are not given there, the store assigns them on
  INSERT (the primary key, and the column default \<open>datetime.utcnow\<close>). \<open>APIRequest\<close>
  is a persisted row, with both. The primary-key column \<open>id\<close> is named \<open>row_id\<close>, and
  the column \<open>method\<close> is named \<open>http_method\<close>.
\<close>

record APIRequest_new =
  endpoint :: string
  http_method :: string
  status_code :: int
  latency_ms :: real
  ip_address :: "string option"
  user_agent :: "string option"

record APIRequest = APIRequest_new +
  row_id :: int
  timestamp :: datetime

text \<open>
  \<open>to_dict\<close>: the canonical representation. The \<open>isoformat()\<close> rendering of the
  timestamp is not modelled; the field keeps the instant.
\<close>

record request_dict =
  d_id :: int
  d_endpoint :: string
  d_method :: string
  d_status_code :: int
  d_latency_ms :: real
  d_timestamp :: datetime
  d_ip_address :: "string option"
  d_user_agent :: "string option"

definition to_dict :: "APIRequest \<Rightarrow> request_dict" where
  "to_dict r = \<lparr> d_id = row_id r, d_endpoint = endpoint r, d_method = http_method r,
       d_status_code = status_code r, d_latency_ms = latency_ms r,
       d_timestamp = timestamp r, d_ip_address = ip_address r,
       d_user_agent = user_agent r \<rparr>"

section \<open>The store and its session\<close>

text \<open>
  The table \<open>api_requests\<close> is the list \<open>rows\<close>, in insertion order; \<open>next_id\<close> is the
  primary-key sequence; \<open>reachable\<close> says whether the server answers; \<open>session_new\<close>
  holds the objects added to \<open>db.session\<close> and not yet flushed;
  \<open>transaction_aborted\<close> says that a statement of the session's open transaction has
  failed at the server, which then refuses every statement until a rollback. The
  session is new with each request, and the request's handler is the first to use it.
\<close>

record database =
  rows :: "APIRequest list"
  next_id :: int
  reachable :: bool
  session_new :: "APIRequest_new list"
  transaction_aborted :: bool

text \<open>The length bounds of the \<open>String(n)\<close> columns, which PostgreSQL enforces.\<close>

definition column_violation :: "APIRequest_new \<Rightarrow> bool" where
  "column_violation a =
     (500 < length (endpoint a) \<or> 10 < length (http_method a)
      \<or> (case ip_address a of None \<Rightarrow> False | Some s \<Rightarrow> 45 < length s)
      \<or> (case user_agent a of None \<Rightarrow> False | Some s \<Rightarrow> 500 < length s))"

text \<open>A string with a NUL character is refused by the driver before it is sent.\<close>

definition has_nul :: "APIRequest_new \<Rightarrow> bool" where
  "has_nul a =
     (CHR 0x00 \<in> set (endpoint a) \<or> CHR 0x00 \<in> set (http_method a)
      \<or> (case ip_address a of None \<Rightarrow> False | Some s \<Rightarrow> CHR 0x00 \<in> set s)
      \<or> (case user_agent a of None \<Rightarrow> False | Some s \<Rightarrow> CHR 0x00 \<in> set s))"

definition db_insert :: "database \<Rightarrow> datetime \<Rightarrow> APIRequest_new \<Rightarrow> py_exception + database" where
  "db_insert d utc a =
     (if \<not> reachable d then Inl OperationalError
      else if has_nul a then Inl ValueError
      else if transaction_aborted d then Inl InternalError
      else if column_violation a then Inl DataError
      else Inr (d\<lparr> rows := rows d @
                     [\<lparr> endpoint = endpoint a, http_method = http_method a,
                        status_code = status_code a, latency_ms = latency_ms a,
                        ip_address = ip_address a, user_agent = user_agent a,
                        row_id = next_id d, timestamp = utc \<rparr>],
                   next_id := next_id d + 1 \<rparr>))"

fun flush :: "database \<Rightarrow> datetime \<Rightarrow> APIRequest_new list \<Rightarrow> py_exception + database" where
  "flush d utc [] = Inr d"
| "flush d utc (a # as) =
     (case db_insert d utc a of Inl e \<Rightarrow> Inl e | Inr d' \<Rightarrow> flush d' utc as)"

definition session_add :: "database \<Rightarrow> APIRequest_new \<Rightarrow> database" where
  "session_add d a = d\<lparr> session_new := session_new d @ [a] \<rparr>"

text \<open>
  \<open>db.session.commit()\<close>: every pending object is inserted in one transaction. When an
  INSERT raises, the exception leaves \<open>commit\<close> and the table is as before.
\<close>

definition session_commit :: "database \<Rightarrow> datetime \<Rightarrow> py_exception + database" where
  "session_commit d utc =
     (case flush d utc (session_new d) of
        Inl e \<Rightarrow> Inl e
      | Inr d' \<Rightarrow> Inr (d'\<lparr> session_new := [] \<rparr>))"

text \<open>
  \<open>db.session.rollback()\<close> discards the pending objects and ends the transaction. It is
  taken not to raise.
\<close>

definition session_rollback :: "database \<Rightarrow> database" where
  "session_rollback d = d\<lparr> session_new := [], transaction_aborted := False \<rparr>"

text \<open>
  The session after a handler's query with the outcome \<open>r\<close>: a query that the server
  refused (\<open>DataError\<close>: a rejected \<open>LIMIT\<close>, a division by zero) leaves the transaction
  aborted. The other exceptions of a handler are raised by Python before or after the
  statement, or by a store that did not answer.
\<close>

definition after_query :: "database \<Rightarrow> py_exception + 'a \<Rightarrow> database" where
  "after_query d r =
     (case r of Inl DataError \<Rightarrow> d\<lparr> transaction_aborted := True \<rparr> | _ \<Rightarrow> d)"

section \<open>The external sink and the local logger\<close>

text \<open>
  The line \<open>f"{method} {endpoint} - {status_code} - {latency_ms:.2f}ms"\<close> is kept as
  its four components; the text formatting is not modelled.
\<close>

record log_line =
  l_method :: string
  l_endpoint :: string
  l_status_code :: int
  l_latency_ms :: real

record log_event =
  ev_timestamp :: int
  ev_message :: log_line

text \<open>
  A CloudWatch client: \<open>put_fault\<close> is the exception that \<open>put_log_events\<close> raises, if
  any; \<open>events\<close> are the events the service has accepted.
\<close>

record cloudwatch =
  put_fault :: "py_exception option"
  events :: "log_event list"

definition put_log_events :: "cloudwatch \<Rightarrow> log_event \<Rightarrow> py_exception + cloudwatch" where
  "put_log_events cw ev =
     (case put_fault cw of
        Some e \<Rightarrow> Inl e
      | None \<Rightarrow> Inr (cw\<lparr> events := events cw @ [ev] \<rparr>))"

datatype log_level = WARNING | ERROR

record log_record =
  level :: log_level
  message :: string

section \<open>Recorder: \<open>log_request\<close> and \<open>log_response\<close>\<close>

record request =
  path :: string
  request_method :: string
  remote_addr :: "string option"
  headers :: "(string \<times> string) list"
  start_time :: real

record response =
  response_status_code :: int
  body :: string

text \<open>The module's globals that \<open>log_response\<close> reads and writes.\<close>

record world =
  cloudwatch_logs :: "cloudwatch option"
  db :: database
  logger :: "log_record list"

text \<open>
  The clock readings of one run of \<open>log_response\<close>: the two calls of \<open>time.time()\<close>
  and the \<open>datetime.utcnow()\<close> of the timestamp default.
\<close>

record clock =
  time_end :: real
  time_emit :: real
  utcnow :: datetime

text \<open>
  \<open>request.headers.get(key, default)\<close>; the case-insensitive matching of header names
  is not modelled.
\<close>

definition headers_get :: "(string \<times> string) list \<Rightarrow> string \<Rightarrow> string \<Rightarrow> string" where
  "headers_get hs k dflt = (case map_of hs k of None \<Rightarrow> dflt | Some v \<Rightarrow> v)"

text \<open>Python's \<open>int(x)\<close> on a float truncates towards zero.\<close>

definition py_int :: "real \<Rightarrow> int" where
  "py_int x = (if 0 \<le> x then \<lfloor>x\<rfloor> else \<lceil>x\<rceil>)"

definition log_request :: "request \<Rightarrow> real \<Rightarrow> request" where
  "log_request req t = req\<lparr> start_time := t \<rparr>"

definition log_response :: "world \<Rightarrow> request \<Rightarrow> clock \<Rightarrow> response \<Rightarrow> world \<times> response" where
  "log_response w req clk resp =
     (let latency = fl (fl (time_end clk - start_time req) * 1000);
          endpoint' = path req;
          method' = request_method req;
          status_code' = response_status_code resp;
          ip_address' = remote_addr req;
          user_agent' = headers_get (headers req) ''User-Agent'' '''';
          w1 = (case cloudwatch_logs w of
                  None \<Rightarrow> w
                | Some cw \<Rightarrow>
                    (case put_log_events cw
                            \<lparr> ev_timestamp = py_int (fl (time_emit clk * 1000)),
                              ev_message = \<lparr> l_method = method', l_endpoint = endpoint',
                                             l_status_code = status_code',
                                             l_latency_ms = latency \<rparr> \<rparr> of
                       Inl e \<Rightarrow> w\<lparr> logger := logger w @
                                  [\<lparr> level = WARNING,
                                     message = ''Failed to log to CloudWatch: '' @ exc_str e \<rparr>] \<rparr>
                     | Inr cw' \<Rightarrow> w\<lparr> cloudwatch_logs := Some cw' \<rparr>));
          api_request = \<lparr> endpoint = endpoint', http_method = method',
                          status_code = status_code', latency_ms = latency,
                          ip_address = ip_address', user_agent = Some user_agent' \<rparr>;
          d1 = session_add (db w1) api_request;
          w2 = (case session_commit d1 (utcnow clk) of
                  Inr d2 \<Rightarrow> w1\<lparr> db := d2 \<rparr>
                | Inl e \<Rightarrow> w1\<lparr> logger := logger w1 @
                              [\<lparr> level = ERROR,
                                 message = ''Failed to log request to database: '' @ exc_str e \<rparr>],
                            db := session_rollback d1 \<rparr>)
      in (w2, resp))"

section \<open>Aggregation engine: the pieces of the queries\<close>

text \<open>
  \<open>datetime.utcnow() - timedelta(hours=hours)\<close>. \<open>timedelta\<close> raises OverflowError
  when the number of days leaves \<open>\<plusminus>999999999\<close>, and the subtraction raises it when
  the result is not a representable \<open>datetime\<close>.
\<close>

definition time_threshold :: "datetime \<Rightarrow> int \<Rightarrow> py_exception + datetime" where
  "time_threshold now hours =
     (if 999999999 < \<bar>hours div 24\<bar> then Inl OverflowError
      else (let t = now - hours * hour_us
            in if t < 0 \<or> datetime_max < t then Inl OverflowError else Inr t))"

text \<open>\<open>.filter(APIRequest.timestamp >= time_threshold)\<close>\<close>

definition since :: "datetime \<Rightarrow> APIRequest list \<Rightarrow> APIRequest list" where
  "since t rs = filter (\<lambda>r. t \<le> timestamp r) rs"

text \<open>\<open>.filter(..., APIRequest.status_code >= 400)\<close>\<close>

definition errors_only :: "APIRequest list \<Rightarrow> APIRequest list" where
  "errors_only rs = filter (\<lambda>r. 400 \<le> status_code r) rs"

text \<open>
  \<open>GROUP BY endpoint, method\<close>: one group for each pair that occurs, holding the rows
  of that pair.
\<close>

definition group_key :: "APIRequest \<Rightarrow> string \<times> string" where
  "group_key r = (endpoint r, http_method r)"

definition group_by :: "APIRequest list \<Rightarrow> ((string \<times> string) \<times> APIRequest list) list" where
  "group_by rs =
     map (\<lambda>k. (k, filter (\<lambda>r. group_key r = k) rs)) (remdups (map group_key rs))"

text \<open>\<open>func.count(APIRequest.id)\<close>: the primary key is never NULL.\<close>

definition sql_count :: "APIRequest list \<Rightarrow> int" where
  "sql_count rs = int (length rs)"

text \<open>\<open>ORDER BY ... DESC\<close>; the order among equal keys is the store's choice.\<close>

definition order_by_desc :: "('a \<Rightarrow> 'k::linorder) \<Rightarrow> 'a list \<Rightarrow> 'a list" where
  "order_by_desc f xs = rev (sort_key f xs)"

text \<open>
  \<open>LIMIT n\<close>: PostgreSQL rejects a negative count, and one that is not a \<open>bigint\<close>.
\<close>

definition sql_limit :: "int \<Rightarrow> 'a list \<Rightarrow> py_exception + 'a list" where
  "sql_limit n xs =
     (if n < 0 \<or> 9223372036854775807 < n then Inl DataError else Inr (take (nat n) xs))"

text \<open>\<open>LEFT OUTER JOIN\<close> on the grouping key.\<close>

definition outerjoin :: "('k \<times> 'a) list \<Rightarrow> ('k \<times> 'b) list \<Rightarrow> ('k \<times> 'a \<times> 'b option) list" where
  "outerjoin ls rs =
     concat (map (\<lambda>(k, a).
        (case filter (\<lambda>(k', b). k = k') rs of
           [] \<Rightarrow> [(k, a, None)]
         | ms \<Rightarrow> map (\<lambda>(k', b). (k, a, Some b)) ms)) ls)"

definition coalesce :: "'a option \<Rightarrow> 'a \<Rightarrow> 'a" where
  "coalesce x d = (case x of None \<Rightarrow> d | Some v \<Rightarrow> v)"

text \<open>Division in the store: PostgreSQL raises on a zero divisor.\<close>

definition sql_div :: "real \<Rightarrow> real \<Rightarrow> py_exception + real" where
  "sql_div a b = (if b = 0 then Inl DataError else Inr (a / b))"

text \<open>\<open>round(x, 2)\<close> on \<open>numeric\<close>: ties go away from zero.\<close>

definition sql_round2 :: "real \<Rightarrow> real" where
  "sql_round2 x =
     (if 0 \<le> x then of_int \<lfloor>x * 100 + 1 / 2\<rfloor> / 100
      else - (of_int \<lfloor>- x * 100 + 1 / 2\<rfloor> / 100))"

text \<open>
  \<open>func.avg\<close>, \<open>func.min\<close>, \<open>func.max\<close> on a \<open>float8\<close> column: NULL on no rows. The
  average is the sum, accumulated row by row in \<open>float8\<close>, over the number of rows.
\<close>

definition sql_avg :: "real list \<Rightarrow> real option" where
  "sql_avg xs =
     (if xs = [] then None
      else Some (fl (foldl (\<lambda>s x. fl (s + x)) 0 xs / fl (of_nat (length xs)))))"

fun sql_min :: "real list \<Rightarrow> real option" where
  "sql_min [] = None"
| "sql_min (x # xs) = Some (fold min xs x)"

fun sql_max :: "real list \<Rightarrow> real option" where
  "sql_max [] = None"
| "sql_max (x # xs) = Some (fold max xs x)"

text \<open>
  Python's division of floats. \<open>round(x, 2)\<close> on a float takes the exact value of
  \<open>x\<close> to the nearest multiple of 1/100, ties to the even one, and returns the float
  nearest to that decimal.
\<close>

definition py_truediv :: "real \<Rightarrow> real \<Rightarrow> py_exception + real" where
  "py_truediv a b = (if b = 0 then Inl ZeroDivisionError else Inr (fl (a / b)))"

definition py_round2 :: "real \<Rightarrow> real" where
  "py_round2 x = fl (of_int (round_half_even (x * 100)) / 100)"

text \<open>\<open>x or d\<close> on a number, and on a nullable number.\<close>

definition py_or :: "'a::zero \<Rightarrow> 'a \<Rightarrow> 'a" where
  "py_or x d = (if x = 0 then d else x)"

definition py_or_none :: "'a::zero option \<Rightarrow> 'a \<Rightarrow> 'a" where
  "py_or_none x d = (case x of None \<Rightarrow> d | Some v \<Rightarrow> py_or v d)"

fun sequence_sum :: "('e + 'a) list \<Rightarrow> 'e + 'a list" where
  "sequence_sum [] = Inr []"
| "sequence_sum (x # xs) =
     (case x of
        Inl e \<Rightarrow> Inl e
      | Inr v \<Rightarrow> (case sequence_sum xs of Inl e \<Rightarrow> Inl e | Inr vs \<Rightarrow> Inr (v # vs)))"

section \<open>Aggregation engine: the five handlers\<close>

text \<open>
  Each handler takes the store, the reading of \<open>datetime.utcnow()\<close> and its parsed
  query parameters, and returns the JSON body of its 200 answer, or the exception
  that leaves it (a server error at the HTTP boundary).
\<close>

record 'a analytics =
  timeframe_hours :: int
  results :: "'a list"

record most_used_row =
  mu_endpoint :: string
  mu_method :: string
  mu_request_count :: int

definition get_most_used_endpoints ::
  "database \<Rightarrow> datetime \<Rightarrow> int \<Rightarrow> int \<Rightarrow> py_exception + most_used_row analytics" where
  "get_most_used_endpoints d now limit hours =
     (case time_threshold now hours of
        Inl e \<Rightarrow> Inl e
      | Inr t \<Rightarrow>
          if \<not> reachable d then Inl OperationalError
          else (case sql_limit limit
                       (order_by_desc snd
                          (map (\<lambda>(k, g). (k, sql_count g)) (group_by (since t (rows d))))) of
                  Inl e \<Rightarrow> Inl e
                | Inr rs \<Rightarrow>
                    Inr \<lparr> timeframe_hours = hours,
                          results = map (\<lambda>((e, m), c).
                            \<lparr> mu_endpoint = e, mu_method = m, mu_request_count = c \<rparr>) rs \<rparr>))"

record error_rate_row =
  er_endpoint :: string
  er_method :: string
  er_total_requests :: int
  er_error_count :: int
  er_error_rate_percent :: real

definition get_error_rates ::
  "database \<Rightarrow> datetime \<Rightarrow> int \<Rightarrow> py_exception + error_rate_row analytics" where
  "get_error_rates d now hours =
     (case time_threshold now hours of
        Inl e \<Rightarrow> Inl e
      | Inr t \<Rightarrow>
          if \<not> reachable d then Inl OperationalError
          else (let total_requests' =
                      map (\<lambda>(k, g). (k, sql_count g)) (group_by (since t (rows d)));
                    error_requests =
                      map (\<lambda>(k, g). (k, sql_count g))
                        (group_by (errors_only (since t (rows d))))
                in case sequence_sum
                          (map (\<lambda>(k, total, errs).
                             (case sql_div (of_int (coalesce errs 0) * 100) (of_int total) of
                                Inl e \<Rightarrow> Inl e
                              | Inr q \<Rightarrow> Inr (k, total, coalesce errs 0, sql_round2 q)))
                             (outerjoin total_requests' error_requests)) of
                     Inl e \<Rightarrow> Inl e
                   | Inr rs \<Rightarrow>
                       Inr \<lparr> timeframe_hours = hours,
                             results = map (\<lambda>((e, m), total, errs, rate).
                               \<lparr> er_endpoint = e, er_method = m, er_total_requests = total,
                                 er_error_count = errs, er_error_rate_percent = fl rate \<rparr>)
                               (order_by_desc (\<lambda>(k, total, errs, rate). rate) rs) \<rparr>))"

record response_time_row =
  rt_endpoint :: string
  rt_method :: string
  rt_avg_latency_ms :: real
  rt_min_latency_ms :: real
  rt_max_latency_ms :: real
  rt_request_count :: int

text \<open>\<open>float(x)\<close> on a nullable aggregate: \<open>float(None)\<close> raises TypeError.\<close>

definition py_float :: "real option \<Rightarrow> py_exception + real" where
  "py_float x = (case x of None \<Rightarrow> Inl TypeError | Some v \<Rightarrow> Inr v)"

text \<open>The key of a descending sort on a nullable column: PostgreSQL puts NULL first.\<close>

definition nulls_first :: "real option \<Rightarrow> bool \<times> real" where
  "nulls_first x = (x = None, coalesce x 0)"

definition get_average_response_times ::
  "database \<Rightarrow> datetime \<Rightarrow> int \<Rightarrow> py_exception + response_time_row analytics" where
  "get_average_response_times d now hours =
     (case time_threshold now hours of
        Inl e \<Rightarrow> Inl e
      | Inr t \<Rightarrow>
          if \<not> reachable d then Inl OperationalError
          else (case sequence_sum
                       (map (\<lambda>((e, m), a, lo, hi, c).
                          (case py_float a of
                             Inl x \<Rightarrow> Inl x
                           | Inr a' \<Rightarrow>
                          (case py_float lo of
                             Inl x \<Rightarrow> Inl x
                           | Inr lo' \<Rightarrow>
                          (case py_float hi of
                             Inl x \<Rightarrow> Inl x
                           | Inr hi' \<Rightarrow>
                               Inr \<lparr> rt_endpoint = e, rt_method = m,
                                     rt_avg_latency_ms = py_round2 a',
                                     rt_min_latency_ms = py_round2 lo',
                                     rt_max_latency_ms = py_round2 hi',
                                     rt_request_count = c \<rparr>))))
                          (order_by_desc (\<lambda>(k, a, lo, hi, c). nulls_first a)
                             (map (\<lambda>(k, g).
                                (k, sql_avg (map latency_ms g), sql_min (map latency_ms g),
                                 sql_max (map latency_ms g), sql_count g))
                                (group_by (since t (rows d)))))) of
                  Inl e \<Rightarrow> Inl e
                | Inr rs \<Rightarrow> Inr \<lparr> timeframe_hours = hours, results = rs \<rparr>))"

record summary_stats =
  total_requests :: int
  error_count :: int
  error_rate_percent :: real
  avg_latency_ms :: real
  unique_endpoints :: int

record summary_result =
  s_timeframe_hours :: int
  summary :: summary_stats

definition get_summary :: "database \<Rightarrow> datetime \<Rightarrow> int \<Rightarrow> py_exception + summary_result" where
  "get_summary d now hours =
     (case time_threshold now hours of
        Inl e \<Rightarrow> Inl e
      | Inr t \<Rightarrow>
          if \<not> reachable d then Inl OperationalError
          else (let total_requests' = sql_count (since t (rows d));
                    error_count' = sql_count (errors_only (since t (rows d)));
                    avg_latency = sql_avg (map latency_ms (since t (rows d)));
                    unique_endpoints' =
                      int (length (remdups (map endpoint (since t (rows d)))))
                in case py_truediv (fl (fl (of_int (py_or error_count' 0)) * 100))
                          (fl (of_int (py_or total_requests' 1))) of
                     Inl e \<Rightarrow> Inl e
                   | Inr q \<Rightarrow>
                       Inr \<lparr> s_timeframe_hours = hours,
                             summary = \<lparr> total_requests = py_or total_requests' 0,
                                         error_count = py_or error_count' 0,
                                         error_rate_percent = py_round2 q,
                                         avg_latency_ms = py_round2 (py_or_none avg_latency 0),
                                         unique_endpoints = py_or unique_endpoints' 0 \<rparr> \<rparr>))"

record recent_result =
  count_returned :: int
  requests :: "request_dict list"

definition get_recent_requests ::
  "database \<Rightarrow> datetime \<Rightarrow> int \<Rightarrow> int \<Rightarrow> py_exception + recent_result" where
  "get_recent_requests d now limit hours =
     (case time_threshold now hours of
        Inl e \<Rightarrow> Inl e
      | Inr t \<Rightarrow>
          if \<not> reachable d then Inl OperationalError
          else (case sql_limit limit (order_by_desc timestamp (since t (rows d))) of
                  Inl e \<Rightarrow> Inl e
                | Inr requests' \<Rightarrow>
                    Inr \<lparr> count_returned = int (length requests'),
                          requests = map to_dict requests' \<rparr>))"

section \<open>Serving a sequence of requests\<close>

text \<open>
  The application serves one request after the other; after each handler,
  \<open>log_response\<close> runs on the globals the previous cycle left.
\<close>

fun serve :: "world \<Rightarrow> (request \<times> clock \<times> response) list \<Rightarrow> world" where
  "serve w [] = w"
| "serve w ((req, clk, resp) # cs) = serve (fst (log_response w req clk resp)) cs"

text \<open>The number of \<open>logger.error\<close> calls so far.\<close>

definition error_records :: "world \<Rightarrow> nat" where
  "error_records w = length (filter (\<lambda>l. level l = ERROR) (logger w))"

section \<open>Example values\<close>

text \<open>
  An instant in the year 2025, and two persisted rows of the endpoint \<open>/x\<close>: a GET
  answered two hours before that instant and a POST answered 25 hours before it.
\<close>

definition ex_now :: datetime where
  "ex_now = 63900000000000000"

definition ex_get :: APIRequest where
  "ex_get = \<lparr> endpoint = ''/x'', http_method = ''GET'', status_code = 200, latency_ms = 10,
       ip_address = Some ''10.0.0.1'', user_agent = Some '''',
       row_id = 2, timestamp = 63899992800000000 \<rparr>"

definition ex_post :: APIRequest where
  "ex_post = \<lparr> endpoint = ''/x'', http_method = ''POST'', status_code = 200, latency_ms = 30,
       ip_address = Some ''10.0.0.1'', user_agent = Some '''',
       row_id = 1, timestamp = 63899910000000000 \<rparr>"

definition ex_db :: database where
  "ex_db = \<lparr> rows = [ex_post, ex_get], next_id = 3, reachable = True, session_new = [],
       transaction_aborted = False \<rparr>"

text \<open>
  The same store with two more rows of GET \<open>/x\<close>, one of them answered with 500 an
  hour before the instant; and a store of 4000 rows of GET \<open>/x\<close>, two hours old, the
  last of them answered with 500.
\<close>

definition ex_fail :: APIRequest where
  "ex_fail = \<lparr> endpoint = ''/x'', http_method = ''GET'', status_code = 500, latency_ms = 20,
       ip_address = Some ''10.0.0.1'', user_agent = Some '''',
       row_id = 3, timestamp = 63899996400000000 \<rparr>"

definition ex_ok :: APIRequest where
  "ex_ok = \<lparr> endpoint = ''/x'', http_method = ''GET'', status_code = 200, latency_ms = 20,
       ip_address = Some ''10.0.0.1'', user_agent = Some '''',
       row_id = 4, timestamp = 63899998200000000 \<rparr>"

definition ex_db_errors :: database where
  "ex_db_errors = \<lparr> rows = [ex_post, ex_get, ex_fail, ex_ok], next_id = 5, reachable = True,
       session_new = [], transaction_aborted = False \<rparr>"

definition ex_db_4000 :: database where
  "ex_db_4000 =
     \<lparr> rows = map (\<lambda>i. ex_get\<lparr> row_id := i \<rparr>) [1..3999]
              @ [ex_get\<lparr> row_id := 4000, status_code := 500 \<rparr>],
       next_id = 4001, reachable = True, session_new = [], transaction_aborted = False \<rparr>"

text \<open>
  A GET of \<open>/x\<close> answered with 200 after one second, and the module's globals with
  the sink unconfigured and nothing logged yet.
\<close>

definition ex_request :: request where
  "ex_request = \<lparr> path = ''/x'', request_method = ''GET'', remote_addr = Some ''10.0.0.1'',
       headers = [(''User-Agent'', ''curl'')], start_time = 100 \<rparr>"

definition ex_response :: response where
  "ex_response = \<lparr> response_status_code = 200, body = ''ok'' \<rparr>"

definition ex_clock :: clock where
  "ex_clock = \<lparr> time_end = 101, time_emit = 102, utcnow = 63900000000000000 \<rparr>"

definition ex_world :: world where
  "ex_world = \<lparr> cloudwatch_logs = None, db = ex_db, logger = [] \<rparr>"

section \<open>The store's invariant and the object that a cycle records\<close>

text \<open>
  The primary keys of the rows are distinct and below the sequence's next value.
\<close>

definition primary_key_ok :: "database \<Rightarrow> bool" where
  "primary_key_ok d =
     (distinct (map row_id (rows d)) \<and> list_all (\<lambda>r. row_id r < next_id d) (rows d))"

text \<open>
  The object that \<open>log_response\<close> hands to the session for a request, its clock
  readings and its response.
\<close>

definition api_request_of :: "request \<Rightarrow> clock \<Rightarrow> response \<Rightarrow> APIRequest_new" where
  "api_request_of req clk resp =
     \<lparr> endpoint = path req, http_method = request_method req,
       status_code = response_status_code resp,
       latency_ms = fl (fl (time_end clk - start_time req) * 1000),
       ip_address = remote_addr req,
       user_agent = Some (headers_get (headers req) ''User-Agent'' '''') \<rparr>"

text \<open>The row that the store makes of an object, given its key and its timestamp.\<close>

definition persisted_row :: "APIRequest_new \<Rightarrow> int \<Rightarrow> datetime \<Rightarrow> APIRequest" where
  "persisted_row a i utc =
     \<lparr> endpoint = endpoint a, http_method = http_method a, status_code = status_code a,
       latency_ms = latency_ms a, ip_address = ip_address a, user_agent = user_agent a,
       row_id = i, timestamp = utc \<rparr>"

section \<open>The counts that the claims speak of\<close>

text \<open>
  For a list W of rows and a pair k of endpoint and method: the number of rows of W
  with that pair, and the number of those whose status code is at least 400.
\<close>

definition pair_total :: "APIRequest list \<Rightarrow> string \<times> string \<Rightarrow> int" where
  "pair_total W k = int (length (filter (\<lambda>r. group_key r = k) W))"

definition pair_errors :: "APIRequest list \<Rightarrow> string \<times> string \<Rightarrow> int" where
  "pair_errors W k = int (length (filter (\<lambda>r. group_key r = k \<and> 400 \<le> status_code r) W))"

text \<open>The aggregates of one group of the response-times query.\<close>

definition pair_stats ::
  "(string \<times> string) \<times> APIRequest list \<Rightarrow>
   (string \<times> string) \<times> real option \<times> real option \<times> real option \<times> int" where
  "pair_stats = (\<lambda>(k, g). (k, sql_avg (map latency_ms g), sql_min (map latency_ms g),
                             sql_max (map latency_ms g), sql_count g))"

section \<open>Facts about the pieces\<close>

subsection \<open>Rounding to binary64\<close>

lemma round_half_even_ge: "1 \<le> y \<Longrightarrow> 1 \<le> round_half_even y"
proof -
  assume "1 \<le> y"
  then have "1 \<le> \<lfloor>y\<rfloor>" by simp
  then show ?thesis by (auto simp: round_half_even_def Let_def)
qed

lemma fl_0 [simp]: "fl 0 = 0"
  by (simp add: fl_def)


lemma p2_pos: "0 < p2 e"
  by (simp add: p2_def)

lemma p2_powr: "p2 e = 2 powr (of_int e)"
proof (cases "0 \<le> e")
  case True
  then have "2 powr (of_int e) = (2::real) powr (real (nat e))" by simp
  also have "\<dots> = 2 ^ nat e" by (simp add: powr_realpow)
  finally show ?thesis using True by (simp add: p2_def)
next
  case False
  then have "2 powr (of_int e) = (2::real) powr (- real (nat (- e)))" by simp
  also have "\<dots> = 1 / 2 ^ nat (- e)" by (simp add: powr_minus powr_realpow divide_inverse)
  finally show ?thesis using False by (simp add: p2_def)
qed

lemma p2_add: "p2 (a + b) = p2 a * p2 b"
  by (simp add: p2_powr powr_add)

lemma p2_mono: "a \<le> b \<Longrightarrow> p2 a \<le> p2 b"
  by (simp add: p2_powr)

lemma p2_less_iff: "p2 a < p2 b \<longleftrightarrow> a < b"
  by (simp add: p2_powr)

lemma p2_nat: "p2 (int n) = 2 ^ n"
  by (simp add: p2_def)

lemma fl_exp_bounds:
  assumes "0 < a"
  shows "p2 (fl_exp a) \<le> a \<and> a < p2 (fl_exp a + 1)"
proof (cases "1 \<le> a")
  case True
  let ?n = "\<lfloor>a\<rfloor>"
  let ?k = "bitlen ?n"
  have n: "0 < ?n" using True by simp
  have k: "1 \<le> ?k" using n by (simp add: bitlen_alt_def)
  from bitlen_bounds[OF n] have b: "2 ^ nat (?k - 1) \<le> ?n" "?n < 2 ^ nat ?k" by simp_all
  have "real_of_int (2 ^ nat (?k - 1)) \<le> real_of_int ?n"
    using b(1) by (rule of_int_le_iff[THEN iffD2])
  then have lo: "(2::real) ^ nat (?k - 1) \<le> a"
    by (simp add: order_trans[OF _ of_int_floor_le])
  have "?n + 1 \<le> 2 ^ nat ?k" using b(2) by simp
  then have "real_of_int (?n + 1) \<le> real_of_int (2 ^ nat ?k)"
    by (rule of_int_le_iff[THEN iffD2])
  then have u: "real_of_int ?n + 1 \<le> (2::real) ^ nat ?k" by simp
  have "a < real_of_int ?n + 1" by linarith
  with u have hi: "a < (2::real) ^ nat ?k" by linarith
  have e: "fl_exp a = ?k - 1" using True by (simp add: fl_exp_def)
  show ?thesis using lo hi k by (simp add: e p2_def)
next
  case False
  let ?n = "\<lceil>1 / a\<rceil> - 1"
  let ?k = "bitlen ?n"
  have a1: "a < 1" using False by simp
  then have "1 < 1 / a" using assms by simp
  then have n: "0 < ?n" by linarith
  have k: "1 \<le> ?k" using n by (simp add: bitlen_alt_def)
  from bitlen_bounds[OF n] have b: "2 ^ nat (?k - 1) \<le> ?n" "?n < 2 ^ nat ?k" by simp_all
  have "real_of_int (2 ^ nat (?k - 1)) \<le> real_of_int ?n"
    using b(1) by (rule of_int_le_iff[THEN iffD2])
  then have v: "(2::real) ^ nat (?k - 1) \<le> real_of_int ?n" by simp
  have "real_of_int ?n < 1 / a" by linarith
  with v have "(2::real) ^ nat (?k - 1) < 1 / a" by linarith
  then have "a * 2 ^ nat (?k - 1) < 1" using assms by (simp add: pos_less_divide_eq mult.commute)
  then have hi: "a < 1 / 2 ^ nat (?k - 1)" by (simp add: pos_less_divide_eq)
  have "?n + 1 \<le> 2 ^ nat ?k" using b(2) by simp
  then have "real_of_int (?n + 1) \<le> real_of_int (2 ^ nat ?k)"
    by (rule of_int_le_iff[THEN iffD2])
  then have u: "real_of_int ?n + 1 \<le> (2::real) ^ nat ?k" by simp
  have "1 / a \<le> real_of_int ?n + 1" by linarith
  with u have "1 / a \<le> (2::real) ^ nat ?k" by linarith
  then have "1 \<le> a * 2 ^ nat ?k" using assms by (simp add: pos_divide_le_eq mult.commute)
  then have lo: "1 / 2 ^ nat ?k \<le> a" by (simp add: pos_divide_le_eq)
  have e: "fl_exp a = - ?k" using False by (simp add: fl_exp_def)
  have hi': "a < p2 (- ?k + 1)"
  proof (cases "?k = 1")
    case True
    then show ?thesis using a1 by (simp add: p2_def)
  next
    case False
    then have "\<not> 0 \<le> - ?k + 1" using k by simp
    moreover have "nat (- (- ?k + 1)) = nat (?k - 1)" by simp
    ultimately show ?thesis using hi by (simp add: p2_def)
  qed
  have lo': "p2 (- ?k) \<le> a" using lo k by (simp add: p2_def)
  show ?thesis using lo' hi' by (simp add: e)
qed


lemma round_half_even_of_int: "round_half_even (of_int n) = n"
  by (simp add: round_half_even_def)

lemma round_half_even_mono:
  assumes "y \<le> z"
  shows "round_half_even y \<le> round_half_even z"
proof (cases "\<lfloor>y\<rfloor> = \<lfloor>z\<rfloor>")
  case True
  then have "y - of_int \<lfloor>y\<rfloor> \<le> z - of_int \<lfloor>z\<rfloor>" using assms by simp
  then show ?thesis using True
    by (auto simp: round_half_even_def Let_def)
next
  case False
  have "\<lfloor>y\<rfloor> \<le> \<lfloor>z\<rfloor>" using assms by (rule floor_mono)
  with False have "\<lfloor>y\<rfloor> + 1 \<le> \<lfloor>z\<rfloor>" by simp
  moreover have "round_half_even y \<le> \<lfloor>y\<rfloor> + 1"
    by (auto simp: round_half_even_def Let_def)
  moreover have "\<lfloor>z\<rfloor> \<le> round_half_even z"
    by (auto simp: round_half_even_def Let_def)
  ultimately show ?thesis by linarith
qed

lemma fl_pos_eq:
  "0 < a \<Longrightarrow> fl a = of_int (round_half_even (a / p2 (fl_exp a - 52))) * p2 (fl_exp a - 52)"
  by (simp add: fl_def Let_def)

lemma p2_52: "p2 52 = 2 ^ 52" and p2_53: "p2 53 = 2 ^ 53"
  by (simp_all add: p2_def)

lemma p2_split: "p2 (fl_exp a) = p2 (fl_exp a - 52) * 2 ^ 52"
  "p2 (fl_exp a + 1) = p2 (fl_exp a - 52) * 2 ^ 53"
  using p2_add[of "fl_exp a - 52" 52] p2_add[of "fl_exp a - 52" 53]
  by (simp_all add: p2_52 p2_53 add.commute)

lemma significand_bounds:
  assumes "0 < a"
  shows "2 ^ 52 \<le> a / p2 (fl_exp a - 52) \<and> a / p2 (fl_exp a - 52) < 2 ^ 53"
proof -
  let ?e = "fl_exp a - 52"
  have "p2 ?e * 2 ^ 52 \<le> a" and "a < p2 ?e * 2 ^ 53"
    using fl_exp_bounds[OF assms] unfolding p2_split by simp_all
  then have "2 ^ 52 \<le> a / p2 ?e" and "a / p2 ?e < 2 ^ 53"
    using p2_pos[of ?e] by (simp_all add: pos_le_divide_eq pos_divide_less_eq mult.commute)
  then show ?thesis by simp
qed

lemma fl_bounds:
  assumes "0 < a"
  shows "p2 (fl_exp a) \<le> fl a \<and> fl a \<le> p2 (fl_exp a + 1)"
proof -
  let ?e = "fl_exp a - 52"
  let ?m = "round_half_even (a / p2 ?e)"
  from significand_bounds[OF assms]
  have "real_of_int (2 ^ 52) \<le> a / p2 ?e" "a / p2 ?e \<le> real_of_int (2 ^ 53)" by simp_all
  then have "round_half_even (real_of_int (2 ^ 52)) \<le> ?m" "?m \<le> round_half_even (real_of_int (2 ^ 53))"
    by (simp_all only: round_half_even_mono)
  then have m: "2 ^ 52 \<le> ?m" "?m \<le> 2 ^ 53"
    unfolding round_half_even_of_int by simp_all
  then have "real_of_int (2 ^ 52) \<le> real_of_int ?m" "real_of_int ?m \<le> real_of_int (2 ^ 53)"
    by (simp_all only: of_int_le_iff)
  then have mr: "2 ^ 52 \<le> real_of_int ?m" "real_of_int ?m \<le> 2 ^ 53" by simp_all
  have "p2 (fl_exp a) = 2 ^ 52 * p2 ?e"
    by (simp add: p2_split(1))
  also have "\<dots> \<le> real_of_int ?m * p2 ?e"
    using mr(1) p2_pos[of ?e] by (simp add: mult_right_mono)
  finally have lo: "p2 (fl_exp a) \<le> fl a" by (simp add: fl_pos_eq[OF assms])
  have "real_of_int ?m * p2 ?e \<le> 2 ^ 53 * p2 ?e"
    using mr(2) p2_pos[of ?e] by (simp add: mult_right_mono)
  also have "\<dots> = p2 (fl_exp a + 1)"
    by (simp add: p2_split(2))
  finally have hi: "fl a \<le> p2 (fl_exp a + 1)" by (simp add: fl_pos_eq[OF assms])
  from lo hi show ?thesis by simp
qed

lemma fl_pos: "0 < a \<Longrightarrow> 0 < fl a"
  using fl_bounds[of a] p2_pos[of "fl_exp a"] by linarith

lemma fl_mono_pos:
  assumes "0 < a" "a \<le> b"
  shows "fl a \<le> fl b"
proof -
  have b: "0 < b" using assms by linarith
  have "p2 (fl_exp a) \<le> a" using fl_exp_bounds[OF assms(1)] by simp
  also have "a \<le> b" by fact
  also have "b < p2 (fl_exp b + 1)" using fl_exp_bounds[OF b] by simp
  finally have "fl_exp a < fl_exp b + 1" by (simp add: p2_less_iff)
  then have le: "fl_exp a \<le> fl_exp b" by simp
  show ?thesis
  proof (cases "fl_exp a = fl_exp b")
    case True
    let ?e = "fl_exp b - 52"
    have "a / p2 ?e \<le> b / p2 ?e" using assms(2) p2_pos[of ?e] by (simp add: divide_right_mono)
    then have "round_half_even (a / p2 ?e) \<le> round_half_even (b / p2 ?e)"
      by (rule round_half_even_mono)
    then have "real_of_int (round_half_even (a / p2 ?e)) \<le> real_of_int (round_half_even (b / p2 ?e))"
      by simp
    then have "real_of_int (round_half_even (a / p2 ?e)) * p2 ?e
        \<le> real_of_int (round_half_even (b / p2 ?e)) * p2 ?e"
      using p2_pos[of ?e] by (simp add: mult_right_mono)
    then show ?thesis by (simp add: fl_pos_eq[OF assms(1)] fl_pos_eq[OF b] True)
  next
    case False
    with le have "fl_exp a + 1 \<le> fl_exp b" by simp
    then have "p2 (fl_exp a + 1) \<le> p2 (fl_exp b)" by (rule p2_mono)
    with fl_bounds[OF assms(1)] fl_bounds[OF b] show ?thesis by linarith
  qed
qed

lemma fl_mono_nonneg:
  assumes "0 \<le> a" "a \<le> b"
  shows "fl a \<le> fl b"
proof (cases "a = 0")
  case True
  show ?thesis
  proof (cases "b = 0")
    case True
    with \<open>a = 0\<close> show ?thesis by simp
  next
    case False
    with assms True have "0 < b" by simp
    then have "0 < fl b" by (rule fl_pos)
    with True show ?thesis by (simp add: fl_0)
  qed
next
  case False
  with assms have "0 < a" by simp
  then show ?thesis using assms(2) by (rule fl_mono_pos)
qed

subsection \<open>The queries\<close>

lemma time_threshold_Inr: "time_threshold now hours = Inr t \<Longrightarrow> t = now - hours * hour_us"
  by (auto simp: time_threshold_def Let_def split: if_splits)

lemma time_threshold_cases:
  "time_threshold now hours = Inl OverflowError \<or> time_threshold now hours = Inr (now - hours * hour_us)"
  by (auto simp: time_threshold_def Let_def)

lemma py_or_count_1: "py_or (sql_count rs) 1 = max (sql_count rs) 1"
  by (cases rs) (auto simp: py_or_def sql_count_def)

lemma py_or_0: "py_or x 0 = x"
  by (simp add: py_or_def)

lemma fl_count_pos: "0 < fl (of_int (max (sql_count rs) 1))"
  by (rule fl_pos) (simp add: max_def)

lemma py_truediv_count:
  "py_truediv a (fl (of_int (max (sql_count rs) 1))) =
     Inr (fl (a / fl (of_int (max (sql_count rs) 1))))"
  using fl_count_pos[of rs] by (simp add: py_truediv_def)

lemma get_summary_Inr:
  assumes "time_threshold now hours = Inr t" "reachable d"
  shows "get_summary d now hours =
     Inr \<lparr> s_timeframe_hours = hours,
           summary = \<lparr> total_requests = sql_count (since t (rows d)),
                       error_count = sql_count (errors_only (since t (rows d))),
                       error_rate_percent =
                         py_round2 (fl (fl (fl (of_int (sql_count (errors_only (since t (rows d))))) * 100)
                            / fl (of_int (max (sql_count (since t (rows d))) 1)))),
                       avg_latency_ms = py_round2 (py_or_none (sql_avg (map latency_ms (since t (rows d)))) 0),
                       unique_endpoints = int (length (remdups (map endpoint (since t (rows d))))) \<rparr> \<rparr>"
  using assms
  by (simp add: get_summary_def Let_def py_or_0 py_or_count_1 py_truediv_count)

lemma get_summary_cases:
  "get_summary d now hours = Inr s \<Longrightarrow> \<exists>t. time_threshold now hours = Inr t \<and> reachable d"
  by (auto simp: get_summary_def Let_def split: sum.splits if_splits)

lemma get_summary_no_zero_division: "get_summary d now hours \<noteq> Inl ZeroDivisionError"
proof (cases "time_threshold now hours")
  case (Inl e)
  then have "e = OverflowError" using time_threshold_cases[of now hours] by auto
  with Inl show ?thesis by (simp add: get_summary_def)
next
  case (Inr t)
  show ?thesis
  proof (cases "reachable d")
    case True
    from get_summary_Inr[OF Inr True] show ?thesis by simp
  next
    case False
    with Inr show ?thesis by (simp add: get_summary_def)
  qed
qed

lemma round_half_even_0 [simp]: "round_half_even 0 = 0"
  by (simp add: round_half_even_def)

lemma round_half_even_numeral [simp]: "round_half_even (numeral n) = numeral n"
  using round_half_even_of_int[of "numeral n"] by simp

lemma py_round2_0: "py_round2 0 = 0"
  by (simp add: py_round2_def round_half_even_0 fl_0)

lemma since_length_mono: "t2 \<le> t1 \<Longrightarrow> length (since t1 rs) \<le> length (since t2 rs)"
  unfolding since_def by (induction rs) auto

lemma errors_since_length_mono:
  "t2 \<le> t1 \<Longrightarrow> length (errors_only (since t1 rs)) \<le> length (errors_only (since t2 rs))"
  unfolding since_def errors_only_def by (induction rs) auto

lemma time_threshold_smaller:
  assumes "time_threshold now h2 = Inr t2" "0 < h1" "h1 \<le> h2" "now \<le> datetime_max"
  shows "time_threshold now h1 = Inr (now - h1 * hour_us)"
proof -
  from assms(1) have a: "\<bar>h2 div 24\<bar> \<le> 999999999" and b: "0 \<le> now - h2 * hour_us"
    by (auto simp: time_threshold_def Let_def split: if_splits)
  from assms(2,3) have "0 \<le> h1 div 24" "h1 div 24 \<le> h2 div 24"
    by (auto simp: zdiv_mono1 pos_imp_zdiv_nonneg_iff)
  with a have c: "\<bar>h1 div 24\<bar> \<le> 999999999" by linarith
  have "h1 * hour_us \<le> h2 * hour_us" using assms(3) by (simp add: hour_us_def)
  with b have d: "0 \<le> now - h1 * hour_us" by linarith
  have "0 \<le> h1 * hour_us" using assms(2) by (simp add: hour_us_def)
  with assms(4) have e: "now - h1 * hour_us \<le> datetime_max" by linarith
  from c d e show ?thesis by (simp add: time_threshold_def Let_def)
qed

lemma group_by_counts:
  "map (\<lambda>(k, g). (k, sql_count g)) (group_by rs) =
   map (\<lambda>k. (k, int (length (filter (\<lambda>r. group_key r = k) rs)))) (remdups (map group_key rs))"
  by (simp add: group_by_def sql_count_def comp_def)

lemma filter_key_distinct:
  "distinct ks \<Longrightarrow>
   filter (\<lambda>(k', b). k = k') (map (\<lambda>k. (k, g k)) ks) = (if k \<in> set ks then [(k, g k)] else [])"
  by (induction ks) auto

lemma outerjoin_keys:
  assumes "distinct ks'"
  shows "outerjoin (map (\<lambda>k. (k, f k)) ks) (map (\<lambda>k. (k, g k)) ks') =
         map (\<lambda>k. (k, f k, if k \<in> set ks' then Some (g k) else None)) ks"
  by (induction ks) (simp_all add: outerjoin_def filter_key_distinct[OF assms])

lemma sequence_sum_map_Inr:
  "(\<And>x. x \<in> set xs \<Longrightarrow> f x = Inr (h x)) \<Longrightarrow> sequence_sum (map f xs) = Inr (map h xs)"
  by (induction xs) simp_all

lemma set_order_by_desc [simp]: "set (order_by_desc f xs) = set xs"
  by (simp add: order_by_desc_def)

lemma mset_order_by_desc [simp]: "mset (order_by_desc f xs) = mset xs"
  by (simp add: order_by_desc_def)

lemma length_order_by_desc [simp]: "length (order_by_desc f xs) = length xs"
  by (simp add: order_by_desc_def)

lemma sorted_order_by_desc: "sorted (rev (map f (order_by_desc f xs)))"
  by (simp add: order_by_desc_def rev_map)

lemma distinct_order_by_desc:
  "distinct (map g (order_by_desc f xs)) = distinct (map g xs)"
proof -
  have "mset (map g (order_by_desc f xs)) = mset (map g xs)" by simp
  then show ?thesis by (rule mset_eq_imp_distinct_iff)
qed

lemma errors_key_count:
  "length (filter (\<lambda>r. group_key r = k) (errors_only rs)) =
   length (filter (\<lambda>r. group_key r = k \<and> 400 \<le> status_code r) rs)"
  by (simp add: errors_only_def conj_commute)

lemma key_count_pos:
  "k \<in> set (map group_key rs) \<Longrightarrow> 0 < length (filter (\<lambda>r. group_key r = k) rs)"
  by (induction rs) auto

lemma errors_coalesce:
  "coalesce (if k \<in> set (remdups (map group_key (errors_only rs)))
             then Some (int (length (filter (\<lambda>r. group_key r = k) (errors_only rs)))) else None) 0
   = int (length (filter (\<lambda>r. group_key r = k \<and> 400 \<le> status_code r) rs))"
proof (cases "k \<in> set (map group_key (errors_only rs))")
  case True
  then show ?thesis by (simp add: coalesce_def errors_key_count)
next
  case False
  then have "filter (\<lambda>r. group_key r = k) (errors_only rs) = []"
    by (auto simp: filter_empty_conv)
  then have "length (filter (\<lambda>r. group_key r = k \<and> 400 \<le> status_code r) rs) = 0"
    using errors_key_count[of k rs] by simp
  with False show ?thesis by (simp add: coalesce_def)
qed

lemma get_error_rates_Inr:
  assumes "time_threshold now hours = Inr t" "reachable d"
  shows "get_error_rates d now hours =
     Inr \<lparr> timeframe_hours = hours,
           results = map (\<lambda>((e, m), total, errs, rate).
                        \<lparr> er_endpoint = e, er_method = m, er_total_requests = total,
                          er_error_count = errs, er_error_rate_percent = fl rate \<rparr>)
                      (order_by_desc (\<lambda>(k, total, errs, rate). rate)
                         (map (\<lambda>k. (k, pair_total (since t (rows d)) k,
                                     pair_errors (since t (rows d)) k,
                                     sql_round2 (of_int (pair_errors (since t (rows d)) k) * 100
                                                 / of_int (pair_total (since t (rows d)) k))))
                            (remdups (map group_key (since t (rows d)))))) \<rparr>"
proof -
  let ?W = "since t (rows d)"
  let ?ks = "remdups (map group_key ?W)"
  let ?h = "\<lambda>k. (k, pair_total ?W k, pair_errors ?W k,
                 sql_round2 (of_int (pair_errors ?W k) * 100 / of_int (pair_total ?W k)))"
  let ?f = "\<lambda>(k, total, errs).
               (case sql_div (of_int (coalesce errs 0) * 100) (of_int total) of
                  Inl e \<Rightarrow> Inl e
                | Inr q \<Rightarrow> Inr (k, total, coalesce errs (0::int), sql_round2 q))"
  have join: "outerjoin (map (\<lambda>(k, g). (k, sql_count g)) (group_by ?W))
                 (map (\<lambda>(k, g). (k, sql_count g)) (group_by (errors_only ?W)))
      = map (\<lambda>k. (k, pair_total ?W k,
                   if k \<in> set (remdups (map group_key (errors_only ?W)))
                   then Some (int (length (filter (\<lambda>r. group_key r = k) (errors_only ?W))))
                   else None)) ?ks"
    unfolding group_by_counts pair_total_def
    by (rule outerjoin_keys) simp
  have seq: "sequence_sum (map ?f (map (\<lambda>k. (k, pair_total ?W k,
                   if k \<in> set (remdups (map group_key (errors_only ?W)))
                   then Some (int (length (filter (\<lambda>r. group_key r = k) (errors_only ?W))))
                   else None)) ?ks)) = Inr (map ?h ?ks)"
    unfolding map_map
  proof (rule sequence_sum_map_Inr)
    fix k assume "k \<in> set ?ks"
    then have "0 < pair_total ?W k"
      using key_count_pos[of k ?W] by (simp add: pair_total_def)
    then show "(?f \<circ> (\<lambda>k. (k, pair_total ?W k,
                   if k \<in> set (remdups (map group_key (errors_only ?W)))
                   then Some (int (length (filter (\<lambda>r. group_key r = k) (errors_only ?W))))
                   else None))) k = Inr (?h k)"
      using errors_coalesce[of k ?W]
      by (simp add: sql_div_def pair_errors_def)
  qed
  show ?thesis
    using assms
    by (simp only: get_error_rates_def Let_def join seq sum.case if_False simp_thms)
qed

lemma sql_round2_0: "sql_round2 0 = 0"
  by (simp add: sql_round2_def)

lemma since_since [simp]: "since t (since t rs) = since t rs"
  by (simp add: since_def)

lemma set_since: "set (since t rs) = {r \<in> set rs. t \<le> timestamp r}"
  by (auto simp: since_def)

lemma sql_limit_Inr:
  "0 \<le> n \<Longrightarrow> n \<le> 9223372036854775807 \<Longrightarrow> sql_limit n xs = Inr (take (nat n) xs)"
  by (simp add: sql_limit_def)

lemma sql_limit_cases:
  "sql_limit n xs = Inr ys \<Longrightarrow> 0 \<le> n \<and> n \<le> 9223372036854775807 \<and> ys = take (nat n) xs"
  by (auto simp: sql_limit_def split: if_splits)

lemma get_recent_requests_Inr:
  assumes "time_threshold now hours = Inr t" "reachable d" "0 \<le> limit" "limit \<le> 9223372036854775807"
  shows "get_recent_requests d now limit hours =
     Inr \<lparr> count_returned = int (length (take (nat limit) (order_by_desc timestamp (since t (rows d))))),
           requests = map to_dict (take (nat limit) (order_by_desc timestamp (since t (rows d)))) \<rparr>"
  using assms by (simp add: get_recent_requests_def sql_limit_Inr)

lemma get_recent_requests_cases:
  assumes "get_recent_requests d now limit hours = Inr res"
  shows "\<exists>t. time_threshold now hours = Inr t \<and> reachable d \<and> 0 \<le> limit \<and> limit \<le> 9223372036854775807"
  using assms
  by (auto simp: get_recent_requests_def sql_limit_def split: sum.splits if_splits)

lemma get_most_used_endpoints_Inr:
  assumes "time_threshold now hours = Inr t" "reachable d" "0 \<le> limit" "limit \<le> 9223372036854775807"
  shows "get_most_used_endpoints d now limit hours =
     Inr \<lparr> timeframe_hours = hours,
           results = map (\<lambda>((e, m), c). \<lparr> mu_endpoint = e, mu_method = m, mu_request_count = c \<rparr>)
                      (take (nat limit) (order_by_desc snd
                         (map (\<lambda>k. (k, pair_total (since t (rows d)) k))
                            (remdups (map group_key (since t (rows d))))))) \<rparr>"
  using assms
  by (simp add: get_most_used_endpoints_def sql_limit_Inr group_by_counts pair_total_def)

lemma group_by_nonempty: "(k, g) \<in> set (group_by rs) \<Longrightarrow> g \<noteq> []"
  by (auto simp: group_by_def filter_empty_conv)

lemma sql_avg_Some: "xs \<noteq> [] \<Longrightarrow> py_float (sql_avg xs) = Inr (coalesce (sql_avg xs) 0)"
  by (simp add: sql_avg_def py_float_def coalesce_def)

lemma sql_min_Some: "xs \<noteq> [] \<Longrightarrow> py_float (sql_min xs) = Inr (coalesce (sql_min xs) 0)"
  by (cases xs) (simp_all add: py_float_def coalesce_def)

lemma sql_max_Some: "xs \<noteq> [] \<Longrightarrow> py_float (sql_max xs) = Inr (coalesce (sql_max xs) 0)"
  by (cases xs) (simp_all add: py_float_def coalesce_def)

lemma get_average_response_times_Inr:
  assumes "time_threshold now hours = Inr t" "reachable d"
  shows "get_average_response_times d now hours =
     Inr \<lparr> timeframe_hours = hours,
           results = map (\<lambda>((e, m), a, lo, hi, c).
                        \<lparr> rt_endpoint = e, rt_method = m,
                          rt_avg_latency_ms = py_round2 (coalesce a 0),
                          rt_min_latency_ms = py_round2 (coalesce lo 0),
                          rt_max_latency_ms = py_round2 (coalesce hi 0),
                          rt_request_count = c \<rparr>)
                      (order_by_desc (\<lambda>(k, a, lo, hi, c). nulls_first a)
                         (map pair_stats (group_by (since t (rows d))))) \<rparr>"
proof -
  let ?W = "since t (rows d)"
  let ?L = "order_by_desc (\<lambda>(k, a, lo, hi, c). nulls_first a) (map pair_stats (group_by ?W))"
  let ?f = "\<lambda>((e, m), a, lo, hi, c).
                          (case py_float a of
                             Inl x \<Rightarrow> Inl x
                           | Inr a' \<Rightarrow>
                          (case py_float lo of
                             Inl x \<Rightarrow> Inl x
                           | Inr lo' \<Rightarrow>
                          (case py_float hi of
                             Inl x \<Rightarrow> Inl x
                           | Inr hi' \<Rightarrow>
                               Inr \<lparr> rt_endpoint = e, rt_method = m,
                                     rt_avg_latency_ms = py_round2 a',
                                     rt_min_latency_ms = py_round2 lo',
                                     rt_max_latency_ms = py_round2 hi',
                                     rt_request_count = c \<rparr>)))"
  let ?h = "\<lambda>((e, m), a, lo, hi, c).
                        \<lparr> rt_endpoint = e, rt_method = m,
                          rt_avg_latency_ms = py_round2 (coalesce a 0),
                          rt_min_latency_ms = py_round2 (coalesce lo 0),
                          rt_max_latency_ms = py_round2 (coalesce hi 0),
                          rt_request_count = c \<rparr>"
  have seq: "sequence_sum (map ?f ?L) = Inr (map ?h ?L)"
  proof (rule sequence_sum_map_Inr)
    fix x assume "x \<in> set ?L"
    then obtain k g where kg: "(k, g) \<in> set (group_by ?W)" and x: "x = pair_stats (k, g)"
      by auto
    from kg have g: "map latency_ms g \<noteq> []" using group_by_nonempty by fastforce
    obtain e m where em: "k = (e, m)" by (cases k)
    show "?f x = Inr (?h x)"
      by (simp add: x em pair_stats_def sql_avg_Some[OF g] sql_min_Some[OF g] sql_max_Some[OF g])
  qed
  have eq: "map (\<lambda>(k, g). (k, sql_avg (map latency_ms g), sql_min (map latency_ms g),
                             sql_max (map latency_ms g), sql_count g)) (group_by ?W)
        = map pair_stats (group_by ?W)"
    by (simp add: pair_stats_def)
  show ?thesis
    using assms
    by (simp only: get_average_response_times_def eq seq sum.case if_False simp_thms)
qed

lemmas ex_defs = ex_now_def ex_get_def ex_post_def ex_db_def

lemma ex_threshold [simp]:
  "time_threshold ex_now 24 = Inr 63899913600000000"
  "time_threshold ex_now 48 = Inr 63899827200000000"
  "time_threshold ex_now 1 = Inr 63899996400000000"
  by (simp_all add: time_threshold_def ex_now_def hour_us_def datetime_max_def)

lemma ex_since [simp]:
  "since 63899913600000000 (rows ex_db) = [ex_get]"
  "since 63899827200000000 (rows ex_db) = [ex_post, ex_get]"
  by (simp_all add: since_def ex_defs)

lemma ex_reachable [simp]: "reachable ex_db"
  by (simp add: ex_db_def)

lemma ex_keys [simp]:
  "group_key ex_get = (''/x'', ''GET'')" "group_key ex_post = (''/x'', ''POST'')"
  by (simp_all add: group_key_def ex_defs)

lemma ex_status [simp]: "status_code ex_get = 200" "status_code ex_post = 200"
  by (simp_all add: ex_defs)

lemma ex_error_rates_24:
  "get_error_rates ex_db ex_now 24 =
     Inr \<lparr> timeframe_hours = 24,
           results = [\<lparr> er_endpoint = ''/x'', er_method = ''GET'', er_total_requests = 1,
                        er_error_count = 0, er_error_rate_percent = 0 \<rparr>] \<rparr>"
  unfolding get_error_rates_Inr[OF ex_threshold(1) ex_reachable]
  by (simp add: order_by_desc_def pair_total_def pair_errors_def sql_round2_def)

lemma get_error_rates_length:
  assumes "time_threshold now hours = Inr t" "reachable d"
  shows "\<exists>res. get_error_rates d now hours = Inr res
           \<and> length (results res) = card (group_key ` set (since t (rows d)))"
  unfolding get_error_rates_Inr[OF assms]
  by (simp add: length_remdups_card_conv)

lemma sorted_rev_take: "sorted (rev xs) \<Longrightarrow> sorted (rev (take n xs))"
proof -
  assume a: "sorted (rev xs)"
  have "rev xs = rev (drop n xs) @ rev (take n xs)"
    by (metis append_take_drop_id rev_append)
  with a show ?thesis by (simp add: sorted_append)
qed

lemma sorted_rev_take_drop:
  assumes "sorted (rev (map f xs))" "x \<in> set (drop n xs)" "y \<in> set (take n xs)"
  shows "f x \<le> f y"
proof -
  have "rev (map f xs) = rev (map f (drop n xs)) @ rev (map f (take n xs))"
    by (metis append_take_drop_id rev_append map_append)
  with assms(1) have "\<forall>a \<in> set (rev (map f (drop n xs))). \<forall>b \<in> set (rev (map f (take n xs))). a \<le> b"
    by (simp add: sorted_append)
  with assms(2,3) show ?thesis by auto
qed

lemma d_timestamp_to_dict: "d_timestamp \<circ> to_dict = timestamp"
  by (simp add: fun_eq_iff to_dict_def)

lemma rows_restrict [simp]:
  "rows (d\<lparr>rows := xs\<rparr>) = xs" "reachable (d\<lparr>rows := xs\<rparr>) = reachable d"
  by simp_all

lemma window_only_summary:
  "time_threshold now hours = Inr t \<Longrightarrow>
   get_summary (d\<lparr>rows := since t (rows d)\<rparr>) now hours = get_summary d now hours"
  by (simp add: get_summary_def)

lemma window_only_error_rates:
  "time_threshold now hours = Inr t \<Longrightarrow>
   get_error_rates (d\<lparr>rows := since t (rows d)\<rparr>) now hours = get_error_rates d now hours"
  by (simp add: get_error_rates_def)

lemma window_only_response_times:
  "time_threshold now hours = Inr t \<Longrightarrow>
   get_average_response_times (d\<lparr>rows := since t (rows d)\<rparr>) now hours =
   get_average_response_times d now hours"
  by (simp add: get_average_response_times_def)

lemma window_only_most_used:
  "time_threshold now hours = Inr t \<Longrightarrow>
   get_most_used_endpoints (d\<lparr>rows := since t (rows d)\<rparr>) now limit hours =
   get_most_used_endpoints d now limit hours"
  by (simp add: get_most_used_endpoints_def)

lemma window_only_recent:
  "time_threshold now hours = Inr t \<Longrightarrow>
   get_recent_requests (d\<lparr>rows := since t (rows d)\<rparr>) now limit hours =
   get_recent_requests d now limit hours"
  by (simp add: get_recent_requests_def)

lemma count_pos_if_in_set: "x \<in> set xs \<Longrightarrow> 1 \<le> sql_count xs"
  by (cases xs) (simp_all add: sql_count_def)

lemma boundary_summary:
  assumes "time_threshold now hours = Inr t" "reachable d" "r \<in> set (rows d)" "timestamp r = t"
  shows "\<exists>s. get_summary d now hours = Inr s \<and> 1 \<le> total_requests (summary s)"
proof -
  from assms(3,4) have "r \<in> set (since t (rows d))" by (simp add: set_since)
  then have "1 \<le> sql_count (since t (rows d))" by (rule count_pos_if_in_set)
  then show ?thesis
    unfolding get_summary_Inr[OF assms(1,2)] by simp
qed

lemma boundary_error_rates:
  assumes "time_threshold now hours = Inr t" "reachable d" "r \<in> set (rows d)" "timestamp r = t"
  shows "\<exists>res. get_error_rates d now hours = Inr res
           \<and> (\<exists>row \<in> set (results res). er_endpoint row = endpoint r \<and> er_method row = http_method r
                  \<and> 1 \<le> er_total_requests row)"
proof -
  let ?W = "since t (rows d)"
  let ?ks = "remdups (map group_key ?W)"
  let ?h = "\<lambda>k. (k, pair_total ?W k, pair_errors ?W k,
                 sql_round2 (of_int (pair_errors ?W k) * 100 / of_int (pair_total ?W k)))"
  let ?mk = "\<lambda>((e, m), total, errs, rate).
                \<lparr> er_endpoint = e, er_method = m, er_total_requests = total,
                  er_error_count = errs, er_error_rate_percent = fl rate \<rparr>"
  let ?L = "order_by_desc (\<lambda>(k, total, errs, rate). rate :: real) (map ?h ?ks)"
  from assms(3,4) have r: "r \<in> set ?W" by (simp add: set_since)
  then have "group_key r \<in> set ?ks" by simp
  then have "?h (group_key r) \<in> ?h ` set ?ks" by (rule imageI)
  then have "?h (group_key r) \<in> set ?L" by simp
  then have "?mk (?h (group_key r)) \<in> ?mk ` set ?L" by (rule imageI)
  then have mem: "?mk (?h (group_key r)) \<in> set (map ?mk ?L)" by simp
  have "r \<in> set (filter (\<lambda>x. group_key x = group_key r) ?W)" using r by simp
  then have "1 \<le> sql_count (filter (\<lambda>x. group_key x = group_key r) ?W)"
    by (rule count_pos_if_in_set)
  then have p: "er_endpoint (?mk (?h (group_key r))) = endpoint r
      \<and> er_method (?mk (?h (group_key r))) = http_method r
      \<and> 1 \<le> er_total_requests (?mk (?h (group_key r)))"
    by (simp add: group_key_def pair_total_def sql_count_def)
  from p mem have "\<exists>row \<in> set (map ?mk ?L).
        er_endpoint row = endpoint r \<and> er_method row = http_method r \<and> 1 \<le> er_total_requests row"
    by (rule bexI)
  then show ?thesis
    unfolding get_error_rates_Inr[OF assms(1,2)] by simp
qed

lemma in_take_all: "length xs \<le> n \<Longrightarrow> x \<in> set xs \<Longrightarrow> x \<in> set (take n xs)"
  by simp

lemma boundary_recent:
  assumes "time_threshold now hours = Inr t" "reachable d" "r \<in> set (rows d)" "timestamp r = t"
    "int (length (rows d)) \<le> limit" "limit \<le> 9223372036854775807"
  shows "\<exists>res. get_recent_requests d now limit hours = Inr res \<and> to_dict r \<in> set (requests res)"
proof -
  from assms(3,4) have r: "r \<in> set (since t (rows d))" by (simp add: set_since)
  have "length (since t (rows d)) \<le> length (rows d)" by (simp add: since_def)
  with assms(5) have n: "length (order_by_desc timestamp (since t (rows d))) \<le> nat limit"
    by simp
  have l: "0 \<le> limit" using assms(5) by linarith
  show ?thesis
    unfolding get_recent_requests_Inr[OF assms(1,2) l assms(6)]
    using r n by simp
qed

lemma boundary_most_used:
  assumes "time_threshold now hours = Inr t" "reachable d" "r \<in> set (rows d)" "timestamp r = t"
    "int (length (rows d)) \<le> limit" "limit \<le> 9223372036854775807"
  shows "\<exists>res. get_most_used_endpoints d now limit hours = Inr res
           \<and> (\<exists>row \<in> set (results res). mu_endpoint row = endpoint r \<and> mu_method row = http_method r
                  \<and> 1 \<le> mu_request_count row)"
proof -
  let ?W = "since t (rows d)"
  let ?ks = "remdups (map group_key ?W)"
  let ?L = "order_by_desc snd (map (\<lambda>k. (k, pair_total ?W k)) ?ks)"
  let ?mk = "\<lambda>((e, m), c). \<lparr> mu_endpoint = e, mu_method = m, mu_request_count = c \<rparr>"
  from assms(3,4) have r: "r \<in> set ?W" by (simp add: set_since)
  have "length ?ks \<le> length (map group_key ?W)" by (rule length_remdups_leq)
  moreover have "length ?W \<le> length (rows d)" by (simp add: since_def)
  ultimately have n: "length ?L \<le> nat limit" using assms(5) by simp
  have l: "0 \<le> limit" using assms(5) by linarith
  from r have k: "group_key r \<in> set ?ks" by simp
  then have "(group_key r, pair_total ?W (group_key r)) \<in> (\<lambda>k. (k, pair_total ?W k)) ` set ?ks"
    by (rule imageI)
  then have "(group_key r, pair_total ?W (group_key r)) \<in> set (take (nat limit) ?L)"
    using n by simp
  then have "?mk (group_key r, pair_total ?W (group_key r)) \<in> ?mk ` set (take (nat limit) ?L)"
    by (rule imageI)
  then have mem: "\<lparr> mu_endpoint = endpoint r, mu_method = http_method r,
                    mu_request_count = pair_total ?W (group_key r) \<rparr>
                  \<in> set (map ?mk (take (nat limit) ?L))"
    by (simp add: group_key_def)
  have "0 < pair_total ?W (group_key r)"
    using key_count_pos[of "group_key r" ?W] r by (simp add: pair_total_def)
  then have "\<exists>row \<in> set (map ?mk (take (nat limit) ?L)).
        mu_endpoint row = endpoint r \<and> mu_method row = http_method r \<and> 1 \<le> mu_request_count row"
    by (intro bexI[OF _ mem]) simp
  then show ?thesis
    unfolding get_most_used_endpoints_Inr[OF assms(1,2) l assms(6)] by simp
qed

lemma boundary_response_times:
  assumes "time_threshold now hours = Inr t" "reachable d" "r \<in> set (rows d)" "timestamp r = t"
  shows "\<exists>res. get_average_response_times d now hours = Inr res
           \<and> (\<exists>row \<in> set (results res). rt_endpoint row = endpoint r \<and> rt_method row = http_method r
                  \<and> 1 \<le> rt_request_count row)"
proof -
  let ?W = "since t (rows d)"
  let ?L = "order_by_desc (\<lambda>(k, a, lo, hi, c). nulls_first a) (map pair_stats (group_by ?W))"
  let ?h = "\<lambda>((e, m), a, lo, hi, c).
                        \<lparr> rt_endpoint = e, rt_method = m,
                          rt_avg_latency_ms = py_round2 (coalesce a 0),
                          rt_min_latency_ms = py_round2 (coalesce lo 0),
                          rt_max_latency_ms = py_round2 (coalesce hi 0),
                          rt_request_count = c \<rparr>"
  let ?g = "filter (\<lambda>x. group_key x = group_key r) ?W"
  from assms(3,4) have r: "r \<in> set ?W" by (simp add: set_since)
  then have "(group_key r, ?g) \<in> set (group_by ?W)"
    by (auto simp: group_by_def)
  then have "pair_stats (group_key r, ?g) \<in> pair_stats ` set (group_by ?W)"
    by (rule imageI)
  then have "pair_stats (group_key r, ?g) \<in> set ?L" by simp
  then have mem: "?h (pair_stats (group_key r, ?g)) \<in> set (map ?h ?L)"
    by (metis (no_types, lifting) image_eqI set_map)
  have "r \<in> set ?g" using r by simp
  then have "1 \<le> sql_count ?g" by (rule count_pos_if_in_set)
  then have p: "rt_endpoint (?h (pair_stats (group_key r, ?g))) = endpoint r
      \<and> rt_method (?h (pair_stats (group_key r, ?g))) = http_method r
      \<and> 1 \<le> rt_request_count (?h (pair_stats (group_key r, ?g)))"
    by (simp add: pair_stats_def group_key_def)
  from p mem have "\<exists>row \<in> set (map ?h ?L).
        rt_endpoint row = endpoint r \<and> rt_method row = http_method r \<and> 1 \<le> rt_request_count row"
    by (rule bexI)
  then show ?thesis
    unfolding get_average_response_times_Inr[OF assms(1,2)] by simp
qed

lemma db_insert_cases:
  "db_insert d utc a =
     (if \<not> reachable d then Inl OperationalError
      else if has_nul a then Inl ValueError
      else if transaction_aborted d then Inl InternalError
      else if column_violation a then Inl DataError
      else Inr (d\<lparr> rows := rows d @ [persisted_row a (next_id d) utc],
                   next_id := next_id d + 1 \<rparr>))"
  by (simp add: db_insert_def persisted_row_def)

lemma commit_single:
  assumes "session_new d = []"
  shows "session_commit (session_add d a) utc =
     (if \<not> reachable d then Inl OperationalError
      else if has_nul a then Inl ValueError
      else if transaction_aborted d then Inl InternalError
      else if column_violation a then Inl DataError
      else Inr (d\<lparr> rows := rows d @ [persisted_row a (next_id d) utc],
                   next_id := next_id d + 1 \<rparr>))"
  using assms by (simp add: session_commit_def session_add_def db_insert_cases)

lemma db_insert_Inr:
  assumes "db_insert d utc a = Inr d1"
  shows "d1 = d\<lparr> rows := rows d @ [persisted_row a (next_id d) utc], next_id := next_id d + 1 \<rparr>"
  using assms by (auto simp: db_insert_cases split: if_splits)

lemma primary_key_ok_insert:
  "primary_key_ok d \<Longrightarrow>
   primary_key_ok (d\<lparr> rows := rows d @ [persisted_row a (next_id d) utc],
                        next_id := next_id d + 1 \<rparr>)"
  by (auto simp: primary_key_ok_def persisted_row_def list_all_iff)

lemma flush_rows:
  "flush d utc as = Inr d' \<Longrightarrow>
     prefix (rows d) (rows d') \<and> length (rows d') = length (rows d) + length as
     \<and> reachable d' = reachable d \<and> session_new d' = session_new d
     \<and> (primary_key_ok d \<longrightarrow> primary_key_ok d')"
proof (induction as arbitrary: d)
  case Nil
  then show ?case by simp
next
  case (Cons a as)
  from Cons.prems obtain d1 where d1: "db_insert d utc a = Inr d1" and f: "flush d1 utc as = Inr d'"
    by (auto split: sum.splits)
  note e = db_insert_Inr[OF d1]
  have pk: "primary_key_ok d \<longrightarrow> primary_key_ok d1"
    unfolding e using primary_key_ok_insert by blast
  from Cons.IH[OF f] have ih: "prefix (rows d1) (rows d')"
    "length (rows d') = length (rows d1) + length as"
    "reachable d' = reachable d1" "session_new d' = session_new d1"
    "primary_key_ok d1 \<longrightarrow> primary_key_ok d'"
    by simp_all
  have p1: "prefix (rows d) (rows d1)" by (simp add: e)
  have a: "prefix (rows d) (rows d')" using p1 ih(1) by (rule prefix_order.trans)
  have b: "length (rows d') = length (rows d) + length (a # as)" using ih(2) by (simp add: e)
  have c: "reachable d' = reachable d" using ih(3) by (simp add: e)
  have dd: "session_new d' = session_new d" using ih(4) by (simp add: e)
  have ee: "primary_key_ok d \<longrightarrow> primary_key_ok d'" using pk ih(5) by blast
  from a b c dd ee show ?case by blast
qed

text \<open>The object handed to the session, and the store after the sink step.\<close>

lemma log_response_db:
  "db (fst (log_response w req clk resp)) =
     (case session_commit (session_add (db w) (api_request_of req clk resp)) (utcnow clk) of
        Inr d2 \<Rightarrow> d2
      | Inl e \<Rightarrow> session_rollback (session_add (db w) (api_request_of req clk resp)))"
  by (simp add: log_response_def Let_def api_request_of_def split: option.splits sum.splits)

lemma log_response_sink_free:
  "db (fst (log_response (w\<lparr>cloudwatch_logs := c\<rparr>) req clk resp)) =
   db (fst (log_response w req clk resp))"
  by (simp add: log_response_db cong: sum.case_cong)


lemma log_response_logger:
  "logger (fst (log_response w req clk resp)) =
     logger w
     @ (case cloudwatch_logs w of
          None \<Rightarrow> []
        | Some cw \<Rightarrow>
            (case put_fault cw of
               None \<Rightarrow> []
             | Some e \<Rightarrow> [\<lparr> level = WARNING,
                             message = ''Failed to log to CloudWatch: '' @ exc_str e \<rparr>]))
     @ (case session_commit (session_add (db w) (api_request_of req clk resp)) (utcnow clk) of
          Inr d2 \<Rightarrow> []
        | Inl e \<Rightarrow> [\<lparr> level = ERROR,
                       message = ''Failed to log request to database: '' @ exc_str e \<rparr>])"
  by (simp add: log_response_def Let_def api_request_of_def put_log_events_def
      split: option.splits sum.splits)

lemma error_records_step:
  "error_records (fst (log_response w req clk resp)) =
     error_records w
     + (case session_commit (session_add (db w) (api_request_of req clk resp)) (utcnow clk) of
          Inr d2 \<Rightarrow> 0 | Inl e \<Rightarrow> 1)"
  by (simp add: error_records_def log_response_logger split: option.splits sum.splits)

lemma warning_records_step:
  "filter (\<lambda>l. level l = WARNING) (logger (fst (log_response w req clk resp))) =
     filter (\<lambda>l. level l = WARNING) (logger w)
     @ (case cloudwatch_logs w of
          None \<Rightarrow> []
        | Some cw \<Rightarrow>
            (case put_fault cw of
               None \<Rightarrow> []
             | Some e \<Rightarrow> [\<lparr> level = WARNING,
                             message = ''Failed to log to CloudWatch: '' @ exc_str e \<rparr>]))"
  by (simp add: log_response_logger split: option.splits sum.splits)

lemma ex_fl [simp]:
  "fl 1 = 1" "fl 2 = 2" "fl 3 = 3" "fl 10 = 10" "fl 20 = 20" "fl 30 = 30" "fl 40 = 40"
  "fl 100 = 100" "fl 1000 = 1000" "fl 4000 = 4000"
  by code_simp+

lemma ex_api_request:
  "api_request_of ex_request ex_clock ex_response =
     \<lparr> endpoint = ''/x'', http_method = ''GET'', status_code = 200, latency_ms = 1000,
       ip_address = Some ''10.0.0.1'', user_agent = Some ''curl'' \<rparr>"
  by (simp add: api_request_of_def ex_request_def ex_response_def ex_clock_def headers_get_def)

lemma log_response_step:
  assumes "session_new (db w) = []"
  shows "session_new (db (fst (log_response w req clk resp))) = []
     \<and> prefix (rows (db w)) (rows (db (fst (log_response w req clk resp))))
     \<and> (primary_key_ok (db w) \<longrightarrow> primary_key_ok (db (fst (log_response w req clk resp))))
     \<and> length (rows (db (fst (log_response w req clk resp))))
          + error_records (fst (log_response w req clk resp))
        = length (rows (db w)) + error_records w + 1"
proof -
  let ?a = "api_request_of req clk resp"
  let ?d = "(db w)\<lparr> rows := rows (db w) @ [persisted_row ?a (next_id (db w)) (utcnow clk)],
                     next_id := next_id (db w) + 1 \<rparr>"
  show ?thesis
  proof (cases "reachable (db w) \<and> \<not> has_nul ?a \<and> \<not> transaction_aborted (db w)
                  \<and> \<not> column_violation ?a")
    case True
    then have c: "session_commit (session_add (db w) ?a) (utcnow clk) = Inr ?d"
      by (simp add: commit_single[OF assms])
    have d: "db (fst (log_response w req clk resp)) = ?d"
      unfolding log_response_db c by simp
    have e: "error_records (fst (log_response w req clk resp)) = error_records w"
      unfolding error_records_step c by simp
    have pk: "primary_key_ok (db w) \<longrightarrow> primary_key_ok ?d"
      using primary_key_ok_insert by blast
    show ?thesis unfolding d e using pk assms by simp
  next
    case False
    then have "\<exists>x. session_commit (session_add (db w) ?a) (utcnow clk) = Inl x"
      unfolding commit_single[OF assms]
      by (cases "reachable (db w)"; cases "has_nul ?a"; cases "transaction_aborted (db w)")
        simp_all
    then obtain x where c: "session_commit (session_add (db w) ?a) (utcnow clk) = Inl x" ..
    have d: "db (fst (log_response w req clk resp)) =
               (db w)\<lparr> session_new := [], transaction_aborted := False \<rparr>"
      unfolding log_response_db c by (simp add: session_rollback_def session_add_def)
    have e: "error_records (fst (log_response w req clk resp)) = error_records w + 1"
      unfolding error_records_step c by simp
    show ?thesis unfolding d e by (simp add: primary_key_ok_def)
  qed
qed

lemma serve_invariant:
  "session_new (db w) = [] \<Longrightarrow>
     session_new (db (serve w cs)) = []
     \<and> prefix (rows (db w)) (rows (db (serve w cs)))
     \<and> (primary_key_ok (db w) \<longrightarrow> primary_key_ok (db (serve w cs)))
     \<and> length (rows (db (serve w cs))) + error_records (serve w cs)
        = length (rows (db w)) + error_records w + length cs"
proof (induction cs arbitrary: w)
  case Nil
  then show ?case by simp
next
  case (Cons c cs)
  obtain req clk resp where c: "c = (req, clk, resp)" by (cases c)
  let ?w = "fst (log_response w req clk resp)"
  note s = log_response_step[OF Cons.prems, of req clk resp]
  from s have n: "session_new (db ?w) = []" by simp
  note ih = Cons.IH[OF n]
  have a: "session_new (db (serve w (c # cs))) = []" using ih by (simp add: c)
  have b: "prefix (rows (db w)) (rows (db (serve w (c # cs))))"
    using s ih by (auto simp: c intro: prefix_order.trans)
  have d: "primary_key_ok (db w) \<longrightarrow> primary_key_ok (db (serve w (c # cs)))"
    using s ih by (simp add: c)
  have e: "length (rows (db (serve w (c # cs)))) + error_records (serve w (c # cs))
        = length (rows (db w)) + error_records w + length (c # cs)"
    using s ih by (simp add: c)
  from a b d e show ?case by blast
qed

lemma sql_round2_nonneg: "0 \<le> q \<Longrightarrow> 0 \<le> sql_round2 q"
  by (simp add: sql_round2_def)

lemma sql_round2_mono_nonneg:
  assumes "0 \<le> a" "a \<le> b"
  shows "sql_round2 a \<le> sql_round2 b"
proof -
  have "\<lfloor>a * 100 + 1 / 2\<rfloor> \<le> \<lfloor>b * 100 + 1 / 2\<rfloor>"
    using assms(2) by (intro floor_mono) simp
  then have "real_of_int \<lfloor>a * 100 + 1 / 2\<rfloor> \<le> real_of_int \<lfloor>b * 100 + 1 / 2\<rfloor>"
    by simp
  then show ?thesis using assms by (simp add: sql_round2_def divide_right_mono)
qed

lemma sql_round2_rate:
  assumes "0 \<le> e" "0 < n"
  shows "sql_round2 (of_int e * 100 / of_int n) =
         of_int \<lfloor>real_of_int e * 10000 / real_of_int n + 1 / 2\<rfloor> / 100"
proof -
  have "0 \<le> real_of_int e * 100 / real_of_int n" using assms by simp
  moreover have "real_of_int e * 100 / real_of_int n * 100 = real_of_int e * 10000 / real_of_int n"
    by simp
  ultimately show ?thesis by (simp only: sql_round2_def if_True)
qed

lemma sorted_rev_map_mono:
  assumes "sorted (rev xs)" "\<And>x y. x \<in> set xs \<Longrightarrow> y \<in> set xs \<Longrightarrow> x \<le> y \<Longrightarrow> f x \<le> f y"
  shows "sorted (rev (map f xs))"
  using assms
proof (induction xs)
  case Nil
  then show ?case by simp
next
  case (Cons a xs)
  from Cons.prems(1) have s: "sorted (rev xs)" and le: "\<forall>x \<in> set xs. x \<le> a"
    by (auto simp: sorted_append)
  have "sorted (rev (map f xs))"
    using s Cons.prems(2) by (intro Cons.IH) auto
  moreover have "\<forall>x \<in> set xs. f x \<le> f a"
    using le Cons.prems(2) by auto
  ultimately show ?case by (auto simp: sorted_append rev_map)
qed

lemma pair_total_window:
  "pair_total (since (now - hours * hour_us) rs) (e, m) =
     int (length (filter (\<lambda>r. endpoint r = e \<and> http_method r = m
                               \<and> now - hours * hour_us \<le> timestamp r) rs))"
  by (simp add: pair_total_def since_def group_key_def conj_commute conj_left_commute)

lemma pair_errors_window:
  "pair_errors (since (now - hours * hour_us) rs) (e, m) =
     int (length (filter (\<lambda>r. endpoint r = e \<and> http_method r = m
                               \<and> now - hours * hour_us \<le> timestamp r
                               \<and> 400 \<le> status_code r) rs))"
  by (simp add: pair_errors_def since_def group_key_def conj_commute conj_left_commute)

lemma ex_errors_window:
  "since 63899827200000000 (rows ex_db_errors) = [ex_post, ex_get, ex_fail, ex_ok]"
  by (simp add: since_def ex_db_errors_def ex_get_def ex_post_def ex_fail_def ex_ok_def)

lemma ex_errors_keys [simp]:
  "group_key ex_fail = (''/x'', ''GET'')" "group_key ex_ok = (''/x'', ''GET'')"
  "status_code ex_fail = 500" "status_code ex_ok = 200"
  by (simp_all add: group_key_def ex_fail_def ex_ok_def)

lemma ex_error_rates_48:
  "get_error_rates ex_db_errors ex_now 48 =
     Inr \<lparr> timeframe_hours = 48,
           results = [\<lparr> er_endpoint = ''/x'', er_method = ''GET'', er_total_requests = 3,
                        er_error_count = 1, er_error_rate_percent = fl (3333 / 100) \<rparr>,
                      \<lparr> er_endpoint = ''/x'', er_method = ''POST'', er_total_requests = 1,
                        er_error_count = 0, er_error_rate_percent = 0 \<rparr>] \<rparr>"
proof -
  have r: "reachable ex_db_errors" by (simp add: ex_db_errors_def)
  show ?thesis
    unfolding get_error_rates_Inr[OF ex_threshold(2) r] ex_errors_window
    by (simp add: order_by_desc_def pair_total_def pair_errors_def sql_round2_def)
qed

lemma round_half_even_near: "\<bar>real_of_int (round_half_even y) - y\<bar> \<le> 1 / 2"
proof -
  have "real_of_int \<lfloor>y\<rfloor> \<le> y" "y < real_of_int \<lfloor>y\<rfloor> + 1" by linarith+
  then show ?thesis
    by (auto simp: round_half_even_def Let_def abs_le_iff not_less)
qed

lemma py_round2_near:
  "\<exists>k. py_round2 x = fl (real_of_int k / 100) \<and> \<bar>real_of_int k / 100 - x\<bar> \<le> 1 / 200"
proof -
  let ?k = "round_half_even (x * 100)"
  have "\<bar>real_of_int ?k - x * 100\<bar> \<le> 1 / 2" by (rule round_half_even_near)
  then have "\<bar>real_of_int ?k / 100 - x\<bar> \<le> 1 / 200" by (simp add: abs_le_iff field_simps)
  moreover have "py_round2 x = fl (real_of_int ?k / 100)" by (simp add: py_round2_def)
  ultimately show ?thesis by blast
qed

lemma ex_4000_window:
  "since 63899913600000000 (rows ex_db_4000) = rows ex_db_4000"
  unfolding since_def
  by (rule filter_True) (auto simp: ex_db_4000_def ex_get_def)

lemma ex_4000_total: "sql_count (rows ex_db_4000) = 4000"
  by (simp add: sql_count_def ex_db_4000_def)

lemma ex_4000_errors: "sql_count (errors_only (rows ex_db_4000)) = 1"
proof -
  have "filter (\<lambda>r. 400 \<le> status_code r) (map (\<lambda>i. ex_get\<lparr> row_id := i \<rparr>) [1..3999]) = []"
    by (auto simp: filter_empty_conv ex_get_def)
  then show ?thesis
    by (simp add: sql_count_def errors_only_def ex_db_4000_def ex_get_def)
qed

lemma ex_round_4000: "py_round2 (fl (fl (fl 1 * 100) / fl 4000)) = fl (3 / 100)"
  unfolding py_round2_def by code_simp

lemma to_dict_fields:
  "map d_id (map to_dict xs) = map row_id xs"
  "map d_endpoint (map to_dict xs) = map endpoint xs"
  "map d_method (map to_dict xs) = map http_method xs"
  "map d_status_code (map to_dict xs) = map status_code xs"
  "map d_latency_ms (map to_dict xs) = map latency_ms xs"
  "map d_timestamp (map to_dict xs) = map timestamp xs"
  "map d_ip_address (map to_dict xs) = map ip_address xs"
  "map d_user_agent (map to_dict xs) = map user_agent xs"
  by (simp_all add: to_dict_def)

lemma ex_recent_1_48:
  "get_recent_requests ex_db ex_now 1 48 =
     Inr \<lparr> count_returned = 1,
           requests = [\<lparr> d_id = 2, d_endpoint = ''/x'', d_method = ''GET'', d_status_code = 200,
                         d_latency_ms = 10, d_timestamp = 63899992800000000,
                         d_ip_address = Some ''10.0.0.1'', d_user_agent = Some '''' \<rparr>] \<rparr>"
  unfolding get_recent_requests_def
  by (simp add: sql_limit_def order_by_desc_def to_dict_def ex_get_def ex_post_def)

text \<open>
  Two inputs that the store refuses: a path with a NUL character, and any object after
  a handler's query that the server refused.
\<close>

lemma commit_refuses_nul:
  assumes "session_new d = []" "reachable d" "CHR 0x00 \<in> set (endpoint a)"
  shows "session_commit (session_add d a) utc = Inl ValueError"
  using assms by (simp add: commit_single has_nul_def)

lemma commit_refuses_after_failed_query:
  assumes "session_new d = []" "reachable d" "\<not> has_nul a"
  shows "session_commit (session_add (after_query d (Inl DataError)) a) utc = Inl InternalError"
  using assms by (simp add: commit_single after_query_def)

lemma ex_commit_unreachable:
  "session_commit (session_add (db (ex_world\<lparr> db := ex_db\<lparr> reachable := False \<rparr> \<rparr>))
       (api_request_of ex_request ex_clock ex_response)) (utcnow ex_clock) = Inl OperationalError"
  by (simp add: commit_single ex_world_def ex_db_def)

lemma ex_commit_accepts:
  "session_commit
     (session_add (db (ex_world\<lparr> cloudwatch_logs :=
                                  Some \<lparr> put_fault = Some (ClientError ''throttled''), events = [] \<rparr> \<rparr>))
        \<lparr> endpoint = path ex_request, http_method = request_method ex_request,
          status_code = response_status_code ex_response,
          latency_ms = fl (fl (time_end ex_clock - start_time ex_request) * 1000),
          ip_address = remote_addr ex_request,
          user_agent = Some (headers_get (headers ex_request) ''User-Agent'' '''') \<rparr>)
     (utcnow ex_clock) =
   Inr \<lparr> rows = [ex_post, ex_get,
                 \<lparr> endpoint = ''/x'', http_method = ''GET'', status_code = 200, latency_ms = 1000,
                   ip_address = Some ''10.0.0.1'', user_agent = Some ''curl'',
                   row_id = 3, timestamp = 63900000000000000 \<rparr>],
         next_id = 4, reachable = True, session_new = [], transaction_aborted = False \<rparr>"
  by (simp add: session_commit_def session_add_def db_insert_def has_nul_def column_violation_def
      ex_world_def ex_db_def ex_request_def ex_response_def ex_clock_def headers_get_def)

section \<open>Recorder: the response is returned as it came\<close>

text \<open>
  C1. \<open>log_response\<close> returns the response object it was given, with the same status
  code and body, whatever the sink and the store do: when both succeed, when the
  emit to the sink raises, and when the commit raises.
\<close>

theorem log_response_returns_response:
  "snd (log_response w req clk resp) = resp
   \<and> response_status_code (snd (log_response w req clk resp)) = response_status_code resp
   \<and> body (snd (log_response w req clk resp)) = body resp"
  by (simp add: log_response_def Let_def)

section \<open>Error rates\<close>

text \<open>
  C4. When the threshold is representable and the store answers, the error-rates query
  returns a result with exactly one row for every pair of endpoint and method that has a
  row with \<open>timestamp >= now - hours\<close>. The row's total is the number of such rows of
  the pair, its error count the number of those with a status code of at least 400 (0
  when there are none), and its rate is the float nearest to the two-decimal number
  \<open>floor(errors * 10000 / total + 1/2) / 100\<close>, that is \<open>errors * 100 / total\<close> rounded
  to two places; a row without errors has the rate 0. The rows are in descending order
  of the rate.
\<close>

theorem get_error_rates_rows:
  assumes "time_threshold now hours = Inr t" "reachable d"
  shows "\<exists>res. get_error_rates d now hours = Inr res
     \<and> (\<forall>r \<in> set (rows d). now - hours * hour_us \<le> timestamp r \<longrightarrow>
           (\<exists>row \<in> set (results res).
              er_endpoint row = endpoint r \<and> er_method row = http_method r))
     \<and> distinct (map (\<lambda>row. (er_endpoint row, er_method row)) (results res))
     \<and> (\<forall>row \<in> set (results res).
            er_total_requests row =
              int (length (filter (\<lambda>r. endpoint r = er_endpoint row
                                       \<and> http_method r = er_method row
                                       \<and> now - hours * hour_us \<le> timestamp r) (rows d)))
          \<and> 0 < er_total_requests row
          \<and> er_error_count row =
              int (length (filter (\<lambda>r. endpoint r = er_endpoint row
                                       \<and> http_method r = er_method row
                                       \<and> now - hours * hour_us \<le> timestamp r
                                       \<and> 400 \<le> status_code r) (rows d)))
          \<and> er_error_rate_percent row =
              fl (of_int \<lfloor>real_of_int (er_error_count row) * 10000
                            / real_of_int (er_total_requests row) + 1 / 2\<rfloor> / 100)
          \<and> (er_error_count row = 0 \<longrightarrow> er_error_rate_percent row = 0))
     \<and> sorted (rev (map er_error_rate_percent (results res)))"
proof -
  have eq: "t = now - hours * hour_us" using assms(1) by (rule time_threshold_Inr)
  let ?W = "since t (rows d)"
  let ?ks = "remdups (map group_key ?W)"
  let ?h = "\<lambda>k. (k, pair_total ?W k, pair_errors ?W k,
                 sql_round2 (of_int (pair_errors ?W k) * 100 / of_int (pair_total ?W k)))"
  let ?mk = "\<lambda>((e, m), total, errs, rate).
                \<lparr> er_endpoint = e, er_method = m, er_total_requests = total,
                  er_error_count = errs, er_error_rate_percent = fl rate \<rparr>"
  let ?rate = "\<lambda>(k, total, errs, rate). rate :: real"
  let ?L = "order_by_desc ?rate (map ?h ?ks)"
  let ?res = "\<lparr> timeframe_hours = hours, results = map ?mk ?L \<rparr>"
  have res: "get_error_rates d now hours = Inr ?res"
    by (rule get_error_rates_Inr[OF assms])
  have r: "results ?res = map ?mk ?L" by simp
  have cover: "\<forall>r \<in> set (rows d). now - hours * hour_us \<le> timestamp r \<longrightarrow>
           (\<exists>row \<in> set (results ?res).
              er_endpoint row = endpoint r \<and> er_method row = http_method r)"
  proof (intro ballI impI)
    fix x assume "x \<in> set (rows d)" "now - hours * hour_us \<le> timestamp x"
    then have "x \<in> set ?W" by (simp add: set_since eq)
    then have "group_key x \<in> set ?ks" by simp
    then have "?h (group_key x) \<in> ?h ` set ?ks" by (rule imageI)
    then have "?h (group_key x) \<in> set ?L" by simp
    then have "?mk (?h (group_key x)) \<in> ?mk ` set ?L" by (rule imageI)
    then have "?mk (?h (group_key x)) \<in> set (results ?res)" by simp
    then show "\<exists>row \<in> set (results ?res). er_endpoint row = endpoint x \<and> er_method row = http_method x"
      by (rule rev_bexI) (simp add: group_key_def)
  qed
  have "map ((\<lambda>row. (er_endpoint row, er_method row)) \<circ> ?mk) (map ?h ?ks) = ?ks"
    by (simp add: comp_def split_beta)
  moreover have "distinct (map ((\<lambda>row. (er_endpoint row, er_method row)) \<circ> ?mk) ?L)
        = distinct (map ((\<lambda>row. (er_endpoint row, er_method row)) \<circ> ?mk) (map ?h ?ks))"
    by (rule distinct_order_by_desc)
  ultimately have dist: "distinct (map (\<lambda>row. (er_endpoint row, er_method row)) (results ?res))"
    unfolding r map_map by (simp only: distinct_remdups)
  have rows: "\<forall>row \<in> set (results ?res).
            er_total_requests row =
              int (length (filter (\<lambda>r. endpoint r = er_endpoint row
                                       \<and> http_method r = er_method row
                                       \<and> now - hours * hour_us \<le> timestamp r) (rows d)))
          \<and> 0 < er_total_requests row
          \<and> er_error_count row =
              int (length (filter (\<lambda>r. endpoint r = er_endpoint row
                                       \<and> http_method r = er_method row
                                       \<and> now - hours * hour_us \<le> timestamp r
                                       \<and> 400 \<le> status_code r) (rows d)))
          \<and> er_error_rate_percent row =
              fl (of_int \<lfloor>real_of_int (er_error_count row) * 10000
                            / real_of_int (er_total_requests row) + 1 / 2\<rfloor> / 100)
          \<and> (er_error_count row = 0 \<longrightarrow> er_error_rate_percent row = 0)"
  proof
    fix row assume "row \<in> set (results ?res)"
    then obtain k where k: "k \<in> set ?ks" and row: "row = ?mk (?h k)" by auto
    obtain e m where em: "k = (e, m)" by (cases k)
    from k have pos: "0 < pair_total ?W (e, m)"
      using key_count_pos[of k ?W] by (simp add: pair_total_def em)
    have nn: "0 \<le> pair_errors ?W (e, m)" by (simp add: pair_errors_def)
    have f: "er_endpoint row = e" "er_method row = m"
      "er_total_requests row = pair_total ?W (e, m)"
      "er_error_count row = pair_errors ?W (e, m)"
      "er_error_rate_percent row =
         fl (sql_round2 (of_int (pair_errors ?W (e, m)) * 100 / of_int (pair_total ?W (e, m))))"
      by (simp_all add: row em)
    have z: "er_error_count row = 0 \<longrightarrow> er_error_rate_percent row = 0"
      by (simp add: f sql_round2_0)
    show "er_total_requests row =
              int (length (filter (\<lambda>r. endpoint r = er_endpoint row
                                       \<and> http_method r = er_method row
                                       \<and> now - hours * hour_us \<le> timestamp r) (rows d)))
          \<and> 0 < er_total_requests row
          \<and> er_error_count row =
              int (length (filter (\<lambda>r. endpoint r = er_endpoint row
                                       \<and> http_method r = er_method row
                                       \<and> now - hours * hour_us \<le> timestamp r
                                       \<and> 400 \<le> status_code r) (rows d)))
          \<and> er_error_rate_percent row =
              fl (of_int \<lfloor>real_of_int (er_error_count row) * 10000
                            / real_of_int (er_total_requests row) + 1 / 2\<rfloor> / 100)
          \<and> (er_error_count row = 0 \<longrightarrow> er_error_rate_percent row = 0)"
      using pos z
      unfolding f(1,2,3,4) f(5) sql_round2_rate[OF nn pos]
      by (simp add: eq pair_total_window pair_errors_window)
  qed
  have comp: "er_error_rate_percent \<circ> ?mk = fl \<circ> ?rate"
    by (auto simp: fun_eq_iff)
  have sr: "sorted (rev (map ?rate ?L))" by (rule sorted_order_by_desc)
  have nonneg: "\<forall>x \<in> set (map ?rate ?L). 0 \<le> x"
  proof
    fix x assume "x \<in> set (map ?rate ?L)"
    then obtain k where "x = sql_round2 (of_int (pair_errors ?W k) * 100 / of_int (pair_total ?W k))"
      by auto
    moreover have "0 \<le> real_of_int (pair_errors ?W k) * 100 / real_of_int (pair_total ?W k)"
      by (simp add: pair_errors_def pair_total_def)
    ultimately show "0 \<le> x" by (simp add: sql_round2_nonneg)
  qed
  have "sorted (rev (map fl (map ?rate ?L)))"
    using sr
  proof (rule sorted_rev_map_mono)
    fix x y assume "x \<in> set (map ?rate ?L)" "y \<in> set (map ?rate ?L)" "x \<le> y"
    with nonneg show "fl x \<le> fl y" by (intro fl_mono_nonneg) auto
  qed
  then have srt: "sorted (rev (map er_error_rate_percent (results ?res)))"
    unfolding r map_map comp .
  from res cover dist rows srt show ?thesis by blast
qed

theorem get_error_rates_rows_witness:
  "time_threshold ex_now 48 = Inr 63899827200000000 \<and> reachable ex_db_errors
   \<and> get_error_rates ex_db_errors ex_now 48 =
        Inr \<lparr> timeframe_hours = 48,
              results = [\<lparr> er_endpoint = ''/x'', er_method = ''GET'', er_total_requests = 3,
                           er_error_count = 1, er_error_rate_percent = fl (3333 / 100) \<rparr>,
                         \<lparr> er_endpoint = ''/x'', er_method = ''POST'', er_total_requests = 1,
                           er_error_count = 0, er_error_rate_percent = 0 \<rparr>] \<rparr>
   \<and> fl (3333 / 100) = 2345390243441541 / 70368744177664
   \<and> \<lfloor>real_of_int 1 * 10000 / real_of_int 3 + 1 / 2\<rfloor> = 3333
   \<and> sorted (rev [fl (3333 / 100), 0])"
proof -
  have r: "reachable ex_db_errors" by (simp add: ex_db_errors_def)
  have v: "fl (3333 / 100) = 2345390243441541 / 70368744177664" by code_simp
  have f: "\<lfloor>real_of_int 1 * 10000 / real_of_int 3 + 1 / 2\<rfloor> = 3333" by (simp add: floor_eq_iff)
  from get_error_rates_rows[OF ex_threshold(2) r]
  obtain res where res: "get_error_rates ex_db_errors ex_now 48 = Inr res"
    and s: "sorted (rev (map er_error_rate_percent (results res)))"
    by blast
  from res s have "sorted (rev [fl (3333 / 100), 0])"
    unfolding ex_error_rates_48 by auto
  with r v f ex_error_rates_48 show ?thesis by (simp add: ex_threshold(2))
qed

section \<open>Summary\<close>

text \<open>
  C5. The summary query never raises ZeroDivisionError: the divisor is the float of the
  maximum of the total and 1, which is positive. The rate it returns is the float
  quotient of the error count times 100.0 by that divisor, rounded by \<open>round(x, 2)\<close>:
  the float nearest to a multiple of 1/100 that lies within 1/200 of the quotient. When
  no row has \<open>timestamp >= now - hours\<close>, it returns zero for all five fields.
\<close>

theorem get_summary_empty_window:
  "get_summary d now hours \<noteq> Inl ZeroDivisionError
   \<and> (\<forall>s. get_summary d now hours = Inr s \<longrightarrow>
          0 < fl (of_int (max (total_requests (summary s)) 1))
        \<and> error_rate_percent (summary s) =
            py_round2 (fl (fl (fl (of_int (error_count (summary s))) * 100)
                           / fl (of_int (max (total_requests (summary s)) 1))))
        \<and> (\<exists>k. error_rate_percent (summary s) = fl (real_of_int k / 100)
              \<and> \<bar>real_of_int k / 100
                  - fl (fl (fl (of_int (error_count (summary s))) * 100)
                        / fl (of_int (max (total_requests (summary s)) 1)))\<bar> \<le> 1 / 200))
   \<and> (\<forall>t. time_threshold now hours = Inr t \<and> reachable d
            \<and> filter (\<lambda>r. now - hours * hour_us \<le> timestamp r) (rows d) = [] \<longrightarrow>
          get_summary d now hours =
            Inr \<lparr> s_timeframe_hours = hours,
                  summary = \<lparr> total_requests = 0, error_count = 0, error_rate_percent = 0,
                              avg_latency_ms = 0, unique_endpoints = 0 \<rparr> \<rparr>)"
proof (intro conjI allI impI)
  show "get_summary d now hours \<noteq> Inl ZeroDivisionError"
    by (rule get_summary_no_zero_division)
next
  fix s assume s: "get_summary d now hours = Inr s"
  then obtain t where t: "time_threshold now hours = Inr t" "reachable d"
    using get_summary_cases by blast
  from get_summary_Inr[OF t] s
  have f: "total_requests (summary s) = sql_count (since t (rows d))"
    "error_count (summary s) = sql_count (errors_only (since t (rows d)))"
    "error_rate_percent (summary s) =
       py_round2 (fl (fl (fl (of_int (sql_count (errors_only (since t (rows d))))) * 100)
                            / fl (of_int (max (sql_count (since t (rows d))) 1))))"
    by auto
  show "0 < fl (of_int (max (total_requests (summary s)) 1))"
    unfolding f by (rule fl_count_pos)
  show "error_rate_percent (summary s) =
            py_round2 (fl (fl (fl (of_int (error_count (summary s))) * 100)
                           / fl (of_int (max (total_requests (summary s)) 1))))"
    unfolding f ..
  show "\<exists>k. error_rate_percent (summary s) = fl (real_of_int k / 100)
              \<and> \<bar>real_of_int k / 100
                  - fl (fl (fl (of_int (error_count (summary s))) * 100)
                        / fl (of_int (max (total_requests (summary s)) 1)))\<bar> \<le> 1 / 200"
    unfolding f by (rule py_round2_near)
next
  fix t assume "time_threshold now hours = Inr t \<and> reachable d
            \<and> filter (\<lambda>r. now - hours * hour_us \<le> timestamp r) (rows d) = []"
  then have t: "time_threshold now hours = Inr t" "reachable d"
    and e0: "filter (\<lambda>r. now - hours * hour_us \<le> timestamp r) (rows d) = []"
    by auto
  have "t = now - hours * hour_us" using t(1) by (rule time_threshold_Inr)
  with e0 have e: "since t (rows d) = []" by (simp add: since_def)
  show "get_summary d now hours =
            Inr \<lparr> s_timeframe_hours = hours,
                  summary = \<lparr> total_requests = 0, error_count = 0, error_rate_percent = 0,
                              avg_latency_ms = 0, unique_endpoints = 0 \<rparr> \<rparr>"
    by (simp add: get_summary_Inr[OF t] e sql_count_def errors_only_def sql_avg_def
        py_or_none_def py_round2_0)
qed

theorem get_summary_empty_window_witness:
  "time_threshold ex_now 1 = Inr 63899996400000000 \<and> reachable ex_db
   \<and> filter (\<lambda>r. ex_now - 1 * hour_us \<le> timestamp r) (rows ex_db) = []
   \<and> get_summary ex_db ex_now 1 =
       Inr \<lparr> s_timeframe_hours = 1,
             summary = \<lparr> total_requests = 0, error_count = 0, error_rate_percent = 0,
                         avg_latency_ms = 0, unique_endpoints = 0 \<rparr> \<rparr>
   \<and> (\<exists>s. get_summary ex_db_4000 ex_now 24 = Inr s
          \<and> total_requests (summary s) = 4000 \<and> error_count (summary s) = 1
          \<and> error_rate_percent (summary s) = fl (3 / 100))
   \<and> fl (3 / 100) = 1080863910568919 / 36028797018963968"
proof -
  have a: "time_threshold ex_now 1 = Inr 63899996400000000"
    by (rule ex_threshold(3))
  have b: "reachable ex_db" by (simp add: ex_db_def)
  have c: "filter (\<lambda>r. ex_now - 1 * hour_us \<le> timestamp r) (rows ex_db) = []"
    by (simp add: ex_defs hour_us_def)
  from get_summary_empty_window[of ex_db ex_now 1] a b c
  have d: "get_summary ex_db ex_now 1 =
       Inr \<lparr> s_timeframe_hours = 1,
             summary = \<lparr> total_requests = 0, error_count = 0, error_rate_percent = 0,
                         avg_latency_ms = 0, unique_endpoints = 0 \<rparr> \<rparr>"
    by blast
  have r: "reachable ex_db_4000" by (simp add: ex_db_4000_def)
  from get_summary_Inr[OF ex_threshold(1) r]
  obtain s where s: "get_summary ex_db_4000 ex_now 24 = Inr s"
    and tot: "total_requests (summary s) = 4000" and err: "error_count (summary s) = 1"
    unfolding ex_4000_window ex_4000_total ex_4000_errors by simp
  from get_summary_empty_window[of ex_db_4000 ex_now 24] s
  have "error_rate_percent (summary s) =
            py_round2 (fl (fl (fl (of_int (error_count (summary s))) * 100)
                           / fl (of_int (max (total_requests (summary s)) 1))))"
    by blast
  then have rate: "error_rate_percent (summary s) = fl (3 / 100)"
    unfolding tot err using ex_round_4000 by simp
  have v: "fl (3 / 100) = 1080863910568919 / 36028797018963968" by code_simp
  from a b c d s tot err rate v show ?thesis by blast
qed

text \<open>
  C10. With the store and the instant fixed, and a representable instant, a summary
  over \<open>h2\<close> hours that returns makes the summary over any positive \<open>h1 \<le> h2\<close> hours
  return too, with a total and an error count that are not larger.
\<close>

theorem get_summary_monotone:
  assumes "0 < h1" "h1 \<le> h2" "now \<le> datetime_max" "get_summary d now h2 = Inr s2"
  shows "\<exists>s1. get_summary d now h1 = Inr s1
            \<and> total_requests (summary s1) \<le> total_requests (summary s2)
            \<and> error_count (summary s1) \<le> error_count (summary s2)"
proof -
  from assms(4) obtain t2 where t2: "time_threshold now h2 = Inr t2" "reachable d"
    using get_summary_cases by blast
  have e2: "t2 = now - h2 * hour_us" using t2(1) by (rule time_threshold_Inr)
  have t1: "time_threshold now h1 = Inr (now - h1 * hour_us)"
    using time_threshold_smaller[OF t2(1) assms(1,2,3)] .
  have le: "t2 \<le> now - h1 * hour_us" using assms(2) by (simp add: e2 hour_us_def)
  from get_summary_Inr[OF t2] assms(4)
  have s2: "total_requests (summary s2) = sql_count (since t2 (rows d))"
      "error_count (summary s2) = sql_count (errors_only (since t2 (rows d)))"
    by auto
  show ?thesis
    using since_length_mono[OF le, of "rows d"] errors_since_length_mono[OF le, of "rows d"]
    by (simp add: get_summary_Inr[OF t1 t2(2)] s2 sql_count_def)
qed

theorem get_summary_monotone_witness:
  "(0::int) < 24 \<and> (24::int) \<le> 48 \<and> ex_now \<le> datetime_max
   \<and> get_summary ex_db ex_now 48 =
         Inr \<lparr> s_timeframe_hours = 48,
               summary = \<lparr> total_requests = 2, error_count = 0, error_rate_percent = 0,
                           avg_latency_ms = 20, unique_endpoints = 1 \<rparr> \<rparr>
   \<and> (\<exists>s1. get_summary ex_db ex_now 24 = Inr s1
          \<and> total_requests (summary s1) \<le> 2 \<and> error_count (summary s1) \<le> 0)"
proof -
  have r: "reachable ex_db" by (simp add: ex_db_def)
  have s2: "get_summary ex_db ex_now 48 = Inr \<lparr> s_timeframe_hours = 48,
             summary = \<lparr> total_requests = 2, error_count = 0, error_rate_percent = 0,
                         avg_latency_ms = 20, unique_endpoints = 1 \<rparr> \<rparr>"
    unfolding get_summary_Inr[OF ex_threshold(2) r]
    by (simp add: since_def errors_only_def sql_count_def
        sql_avg_def py_or_none_def py_or_def py_round2_def ex_db_def ex_get_def ex_post_def)
  have m: "ex_now \<le> datetime_max" by (simp add: ex_now_def datetime_max_def)
  from get_summary_monotone[of 24 48 ex_now ex_db, OF _ _ m s2] s2 m
  show ?thesis by simp
qed

text \<open>
  C9. The \<open>unique_endpoints\<close> field of a summary is the number of distinct endpoint
  values among the in-window rows; the method plays no part. The error-rates query over
  the same window has one row for each distinct pair of endpoint and method instead.
\<close>

theorem get_summary_unique_endpoints:
  assumes "get_summary d now hours = Inr s"
  shows "unique_endpoints (summary s) =
           int (card (endpoint ` {r \<in> set (rows d). now - hours * hour_us \<le> timestamp r}))
       \<and> (\<exists>res. get_error_rates d now hours = Inr res
             \<and> length (results res) =
                 card ((\<lambda>r. (endpoint r, http_method r)) `
                        {r \<in> set (rows d). now - hours * hour_us \<le> timestamp r}))"
proof -
  from assms obtain t where t: "time_threshold now hours = Inr t" "reachable d"
    using get_summary_cases by blast
  have eq: "t = now - hours * hour_us" using t(1) by (rule time_threshold_Inr)
  have W: "set (since t (rows d)) = {r \<in> set (rows d). now - hours * hour_us \<le> timestamp r}"
    by (simp add: set_since eq)
  have "card (endpoint ` set (since t (rows d)))
      = length (remdups (map endpoint (since t (rows d))))"
    by (simp add: length_remdups_card_conv)
  with get_summary_Inr[OF t] assms W
  have a: "unique_endpoints (summary s) =
           int (card (endpoint ` {r \<in> set (rows d). now - hours * hour_us \<le> timestamp r}))"
    by auto
  have gk: "group_key = (\<lambda>r. (endpoint r, http_method r))"
    by (simp add: fun_eq_iff group_key_def)
  have b: "\<exists>res. get_error_rates d now hours = Inr res
             \<and> length (results res) =
                 card ((\<lambda>r. (endpoint r, http_method r)) `
                        {r \<in> set (rows d). now - hours * hour_us \<le> timestamp r})"
    using get_error_rates_length[OF t] unfolding W gk .
  from a b show ?thesis by simp
qed

lemma ex_summary_48:
  "get_summary ex_db ex_now 48 = Inr \<lparr> s_timeframe_hours = 48,
             summary = \<lparr> total_requests = 2, error_count = 0, error_rate_percent = 0,
                         avg_latency_ms = 20, unique_endpoints = 1 \<rparr> \<rparr>"
  unfolding get_summary_Inr[OF ex_threshold(2) ex_reachable]
  by (simp add: errors_only_def sql_count_def sql_avg_def py_or_none_def py_or_def
        py_round2_def ex_get_def ex_post_def)

theorem get_summary_unique_endpoints_witness:
  "get_summary ex_db ex_now 48 = Inr \<lparr> s_timeframe_hours = 48,
             summary = \<lparr> total_requests = 2, error_count = 0, error_rate_percent = 0,
                         avg_latency_ms = 20, unique_endpoints = 1 \<rparr> \<rparr>
   \<and> card (endpoint ` {r \<in> set (rows ex_db). ex_now - 48 * hour_us \<le> timestamp r}) = 1
   \<and> (\<exists>res. get_error_rates ex_db ex_now 48 = Inr res \<and> length (results res) = 2)"
proof -
  have W: "{r \<in> set (rows ex_db). ex_now - 48 * hour_us \<le> timestamp r} = {ex_post, ex_get}"
    by (auto simp: ex_defs hour_us_def)
  have c: "card ((\<lambda>r. (endpoint r, http_method r)) ` {ex_post, ex_get}) = 2"
    by (simp add: ex_defs)
  from get_summary_unique_endpoints[OF ex_summary_48] show ?thesis
    unfolding W c using ex_summary_48 by simp
qed

section \<open>Recent requests\<close>

text \<open>
  C8. A recent-requests answer holds at most \<open>limit\<close> records, in descending order of
  timestamp, and its \<open>count\<close> is the length of the returned list. The returned records
  carry, field by field, the columns of rows with \<open>timestamp >= now - hours\<close>, and
  every such row that is not returned is at most as recent as every returned one; when
  more than \<open>limit\<close> rows are in the window, exactly \<open>limit\<close> are returned, and when
  at most \<open>limit\<close> are, all of them.
\<close>

theorem get_recent_requests_limit:
  assumes "get_recent_requests d now limit hours = Inr res"
  shows "int (length (requests res)) \<le> limit
     \<and> count_returned res = int (length (requests res))
     \<and> sorted (rev (map d_timestamp (requests res)))
     \<and> (\<exists>kept rest.
           map d_id (requests res) = map row_id kept
         \<and> map d_endpoint (requests res) = map endpoint kept
         \<and> map d_method (requests res) = map http_method kept
         \<and> map d_status_code (requests res) = map status_code kept
         \<and> map d_latency_ms (requests res) = map latency_ms kept
         \<and> map d_timestamp (requests res) = map timestamp kept
         \<and> map d_ip_address (requests res) = map ip_address kept
         \<and> map d_user_agent (requests res) = map user_agent kept
         \<and> mset kept + mset rest =
             mset (filter (\<lambda>r. now - hours * hour_us \<le> timestamp r) (rows d))
         \<and> (\<forall>x \<in> set rest. \<forall>y \<in> set kept. timestamp x \<le> timestamp y)
         \<and> (limit < int (length (filter (\<lambda>r. now - hours * hour_us \<le> timestamp r) (rows d))) \<longrightarrow>
               int (length kept) = limit \<and> count_returned res = limit)
         \<and> (int (length (filter (\<lambda>r. now - hours * hour_us \<le> timestamp r) (rows d))) \<le> limit \<longrightarrow>
               rest = []))"
proof -
  from assms obtain t where t: "time_threshold now hours = Inr t" "reachable d"
      and l: "0 \<le> limit" "limit \<le> 9223372036854775807"
    using get_recent_requests_cases by blast
  have eq: "t = now - hours * hour_us" using t(1) by (rule time_threshold_Inr)
  let ?W = "filter (\<lambda>r. now - hours * hour_us \<le> timestamp r) (rows d)"
  have W: "since t (rows d) = ?W" by (simp add: since_def eq)
  let ?L = "order_by_desc timestamp ?W"
  let ?kept = "take (nat limit) ?L"
  let ?rest = "drop (nat limit) ?L"
  from get_recent_requests_Inr[OF t l] assms
  have res: "res = \<lparr> count_returned = int (length ?kept), requests = map to_dict ?kept \<rparr>"
    unfolding W by simp
  have rq: "requests res = map to_dict ?kept" by (simp add: res)
  have srtL: "sorted (rev (map timestamp ?L))" by (rule sorted_order_by_desc)
  have a: "int (length (requests res)) \<le> limit" using l by (simp add: res)
  have b: "count_returned res = int (length (requests res))" by (simp add: res)
  have "sorted (rev (take (nat limit) (map timestamp ?L)))"
    using srtL by (rule sorted_rev_take)
  then have c: "sorted (rev (map d_timestamp (requests res)))"
    unfolding rq to_dict_fields by (simp add: take_map)
  have m: "mset ?kept + mset ?rest = mset ?W"
    by (metis append_take_drop_id mset_append mset_order_by_desc)
  have o: "\<forall>x \<in> set ?rest. \<forall>y \<in> set ?kept. timestamp x \<le> timestamp y"
    using sorted_rev_take_drop[OF srtL] by blast
  have f: "limit < int (length ?W) \<longrightarrow> int (length ?kept) = limit \<and> count_returned res = limit"
    using l by (auto simp: res)
  have g: "int (length ?W) \<le> limit \<longrightarrow> ?rest = []"
    by auto
  have "map d_id (requests res) = map row_id ?kept
         \<and> map d_endpoint (requests res) = map endpoint ?kept
         \<and> map d_method (requests res) = map http_method ?kept
         \<and> map d_status_code (requests res) = map status_code ?kept
         \<and> map d_latency_ms (requests res) = map latency_ms ?kept
         \<and> map d_timestamp (requests res) = map timestamp ?kept
         \<and> map d_ip_address (requests res) = map ip_address ?kept
         \<and> map d_user_agent (requests res) = map user_agent ?kept"
    unfolding rq to_dict_fields by simp
  with m o f g have "\<exists>kept rest.
           map d_id (requests res) = map row_id kept
         \<and> map d_endpoint (requests res) = map endpoint kept
         \<and> map d_method (requests res) = map http_method kept
         \<and> map d_status_code (requests res) = map status_code kept
         \<and> map d_latency_ms (requests res) = map latency_ms kept
         \<and> map d_timestamp (requests res) = map timestamp kept
         \<and> map d_ip_address (requests res) = map ip_address kept
         \<and> map d_user_agent (requests res) = map user_agent kept
         \<and> mset kept + mset rest = mset ?W
         \<and> (\<forall>x \<in> set rest. \<forall>y \<in> set kept. timestamp x \<le> timestamp y)
         \<and> (limit < int (length ?W) \<longrightarrow> int (length kept) = limit \<and> count_returned res = limit)
         \<and> (int (length ?W) \<le> limit \<longrightarrow> rest = [])"
    by blast
  with a b c show ?thesis by blast
qed

theorem get_recent_requests_limit_witness:
  "get_recent_requests ex_db ex_now 1 48 =
     Inr \<lparr> count_returned = 1,
           requests = [\<lparr> d_id = 2, d_endpoint = ''/x'', d_method = ''GET'', d_status_code = 200,
                         d_latency_ms = 10, d_timestamp = 63899992800000000,
                         d_ip_address = Some ''10.0.0.1'', d_user_agent = Some '''' \<rparr>] \<rparr>
   \<and> filter (\<lambda>r. ex_now - 48 * hour_us \<le> timestamp r) (rows ex_db) = [ex_post, ex_get]
   \<and> row_id ex_get = 2 \<and> timestamp ex_get = 63899992800000000
   \<and> timestamp ex_post \<le> timestamp ex_get
   \<and> (\<exists>kept rest. map row_id kept = [2] \<and> mset kept + mset rest = mset [ex_post, ex_get]
          \<and> int (length kept) = 1)"
proof -
  have w: "filter (\<lambda>r. ex_now - 48 * hour_us \<le> timestamp r) (rows ex_db) = [ex_post, ex_get]"
    by (simp add: ex_defs hour_us_def)
  have p: "row_id ex_get = 2" "timestamp ex_get = 63899992800000000"
    "timestamp ex_post \<le> timestamp ex_get"
    by (simp_all add: ex_defs)
  let ?res = "\<lparr> count_returned = 1,
           requests = [\<lparr> d_id = 2, d_endpoint = ''/x'', d_method = ''GET'', d_status_code = 200,
                         d_latency_ms = 10, d_timestamp = 63899992800000000,
                         d_ip_address = Some ''10.0.0.1'', d_user_agent = Some '''' \<rparr>] \<rparr>"
  from get_recent_requests_limit[OF ex_recent_1_48]
  obtain kept rest where a: "map d_id (requests ?res) = map row_id kept"
    and b: "mset kept + mset rest =
             mset (filter (\<lambda>r. ex_now - 48 * hour_us \<le> timestamp r) (rows ex_db))"
    by blast
  from a have a': "map row_id kept = [2]" by simp
  then have "length (map row_id kept) = 1" by simp
  then have c: "int (length kept) = 1" by simp
  have b': "mset kept + mset rest = mset [ex_post, ex_get]" using b unfolding w .
  have "\<exists>kept rest. map row_id kept = [2] \<and> mset kept + mset rest = mset [ex_post, ex_get]
          \<and> int (length kept) = 1"
    by (rule exI[of _ kept], rule exI[of _ rest]) (simp only: a' b' c simp_thms)
  with w p ex_recent_1_48 show ?thesis by blast
qed

section \<open>The trailing window\<close>

text \<open>
  C7. Every aggregation handler reads the rows with \<open>timestamp >= now - hours\<close> and no
  others: its answer is the same on the store cut down to those rows. The bound is
  inclusive: a row whose timestamp is exactly \<open>now - hours\<close> is counted by the summary,
  has its pair in the error-rates, response-times and most-used answers, and is among
  the recent requests (for a limit that does not cut it off). Of two rows at
  \<open>now - 2h\<close> and \<open>now - 25h\<close>, a window of 24 hours holds the first only and a window
  of 48 hours holds both.
\<close>

theorem window_lower_bound_inclusive:
  assumes "time_threshold now hours = Inr t" "reachable d"
  shows "t = now - hours * hour_us
     \<and> set (since t (rows d)) = {r \<in> set (rows d). now - hours * hour_us \<le> timestamp r}
     \<and> get_summary (d\<lparr>rows := since t (rows d)\<rparr>) now hours = get_summary d now hours
     \<and> get_error_rates (d\<lparr>rows := since t (rows d)\<rparr>) now hours = get_error_rates d now hours
     \<and> get_average_response_times (d\<lparr>rows := since t (rows d)\<rparr>) now hours =
         get_average_response_times d now hours
     \<and> (\<forall>limit. get_most_used_endpoints (d\<lparr>rows := since t (rows d)\<rparr>) now limit hours =
                  get_most_used_endpoints d now limit hours
               \<and> get_recent_requests (d\<lparr>rows := since t (rows d)\<rparr>) now limit hours =
                  get_recent_requests d now limit hours)
     \<and> (\<exists>s. get_summary d now hours = Inr s
            \<and> total_requests (summary s) =
                int (length (filter (\<lambda>r. now - hours * hour_us \<le> timestamp r) (rows d))))
     \<and> (\<forall>r \<in> set (rows d). timestamp r = now - hours * hour_us \<longrightarrow>
           (\<exists>s. get_summary d now hours = Inr s \<and> 1 \<le> total_requests (summary s))
         \<and> (\<exists>res. get_error_rates d now hours = Inr res
                \<and> (\<exists>row \<in> set (results res). er_endpoint row = endpoint r
                       \<and> er_method row = http_method r \<and> 1 \<le> er_total_requests row))
         \<and> (\<exists>res. get_average_response_times d now hours = Inr res
                \<and> (\<exists>row \<in> set (results res). rt_endpoint row = endpoint r
                       \<and> rt_method row = http_method r \<and> 1 \<le> rt_request_count row))
         \<and> (\<forall>limit. int (length (rows d)) \<le> limit \<and> limit \<le> 9223372036854775807 \<longrightarrow>
                (\<exists>res. get_most_used_endpoints d now limit hours = Inr res
                   \<and> (\<exists>row \<in> set (results res). mu_endpoint row = endpoint r
                          \<and> mu_method row = http_method r \<and> 1 \<le> mu_request_count row))
              \<and> (\<exists>res. get_recent_requests d now limit hours = Inr res
                   \<and> to_dict r \<in> set (requests res))))
     \<and> (\<forall>r1 r2. timestamp r1 = now - 2 * hour_us \<and> timestamp r2 = now - 25 * hour_us \<longrightarrow>
           since (now - 24 * hour_us) [r1, r2] = [r1]
         \<and> since (now - 48 * hour_us) [r1, r2] = [r1, r2])"
proof -
  have eq: "t = now - hours * hour_us" using assms(1) by (rule time_threshold_Inr)
  have w: "set (since t (rows d)) = {r \<in> set (rows d). now - hours * hour_us \<le> timestamp r}"
    by (simp add: set_since eq)
  note a = window_only_summary[OF assms(1), of d]
  note b = window_only_error_rates[OF assms(1), of d]
  note c = window_only_response_times[OF assms(1), of d]
  have e: "\<forall>limit. get_most_used_endpoints (d\<lparr>rows := since t (rows d)\<rparr>) now limit hours =
                  get_most_used_endpoints d now limit hours
               \<and> get_recent_requests (d\<lparr>rows := since t (rows d)\<rparr>) now limit hours =
                  get_recent_requests d now limit hours"
    using window_only_most_used[OF assms(1)] window_only_recent[OF assms(1)] by blast
  have f: "\<exists>s. get_summary d now hours = Inr s
            \<and> total_requests (summary s) =
                int (length (filter (\<lambda>r. now - hours * hour_us \<le> timestamp r) (rows d)))"
    unfolding get_summary_Inr[OF assms] by (simp add: sql_count_def since_def eq)
  have g: "\<forall>r \<in> set (rows d). timestamp r = now - hours * hour_us \<longrightarrow>
           (\<exists>s. get_summary d now hours = Inr s \<and> 1 \<le> total_requests (summary s))
         \<and> (\<exists>res. get_error_rates d now hours = Inr res
                \<and> (\<exists>row \<in> set (results res). er_endpoint row = endpoint r
                       \<and> er_method row = http_method r \<and> 1 \<le> er_total_requests row))
         \<and> (\<exists>res. get_average_response_times d now hours = Inr res
                \<and> (\<exists>row \<in> set (results res). rt_endpoint row = endpoint r
                       \<and> rt_method row = http_method r \<and> 1 \<le> rt_request_count row))
         \<and> (\<forall>limit. int (length (rows d)) \<le> limit \<and> limit \<le> 9223372036854775807 \<longrightarrow>
                (\<exists>res. get_most_used_endpoints d now limit hours = Inr res
                   \<and> (\<exists>row \<in> set (results res). mu_endpoint row = endpoint r
                          \<and> mu_method row = http_method r \<and> 1 \<le> mu_request_count row))
              \<and> (\<exists>res. get_recent_requests d now limit hours = Inr res
                   \<and> to_dict r \<in> set (requests res)))"
  proof (intro ballI impI)
    fix r assume r: "r \<in> set (rows d)" and "timestamp r = now - hours * hour_us"
    then have ts: "timestamp r = t" by (simp add: eq)
    show "(\<exists>s. get_summary d now hours = Inr s \<and> 1 \<le> total_requests (summary s))
         \<and> (\<exists>res. get_error_rates d now hours = Inr res
                \<and> (\<exists>row \<in> set (results res). er_endpoint row = endpoint r
                       \<and> er_method row = http_method r \<and> 1 \<le> er_total_requests row))
         \<and> (\<exists>res. get_average_response_times d now hours = Inr res
                \<and> (\<exists>row \<in> set (results res). rt_endpoint row = endpoint r
                       \<and> rt_method row = http_method r \<and> 1 \<le> rt_request_count row))
         \<and> (\<forall>limit. int (length (rows d)) \<le> limit \<and> limit \<le> 9223372036854775807 \<longrightarrow>
                (\<exists>res. get_most_used_endpoints d now limit hours = Inr res
                   \<and> (\<exists>row \<in> set (results res). mu_endpoint row = endpoint r
                          \<and> mu_method row = http_method r \<and> 1 \<le> mu_request_count row))
              \<and> (\<exists>res. get_recent_requests d now limit hours = Inr res
                   \<and> to_dict r \<in> set (requests res)))"
      using boundary_summary[OF assms r ts] boundary_error_rates[OF assms r ts]
        boundary_response_times[OF assms r ts]
        boundary_most_used[OF assms r ts] boundary_recent[OF assms r ts]
      by blast
  qed
  have h: "\<forall>r1 r2. timestamp r1 = now - 2 * hour_us \<and> timestamp r2 = now - 25 * hour_us \<longrightarrow>
           since (now - 24 * hour_us) [r1, r2] = [r1]
         \<and> since (now - 48 * hour_us) [r1, r2] = [r1, r2]"
    by (simp add: since_def hour_us_def)
  from eq w a b c e f g h show ?thesis by (intro conjI)
qed

lemma ex_threshold_25: "time_threshold ex_now 25 = Inr 63899910000000000"
  by (simp add: time_threshold_def ex_now_def hour_us_def datetime_max_def)

lemma ex_recent_100_24:
  "get_recent_requests ex_db ex_now 100 24 =
     Inr \<lparr> count_returned = 1, requests = [to_dict ex_get] \<rparr>"
  unfolding get_recent_requests_def
  by (simp add: sql_limit_def order_by_desc_def ex_get_def ex_post_def)

lemma ex_recent_100_48:
  "get_recent_requests ex_db ex_now 100 48 =
     Inr \<lparr> count_returned = 2, requests = [to_dict ex_get, to_dict ex_post] \<rparr>"
  unfolding get_recent_requests_def
  by (simp add: sql_limit_def order_by_desc_def ex_get_def ex_post_def)

theorem window_lower_bound_inclusive_witness:
  "time_threshold ex_now 25 = Inr 63899910000000000 \<and> reachable ex_db
   \<and> ex_post \<in> set (rows ex_db) \<and> timestamp ex_post = ex_now - 25 * hour_us
   \<and> int (length (rows ex_db)) \<le> 100 \<and> (100 :: int) \<le> 9223372036854775807
   \<and> (\<exists>res. get_recent_requests ex_db ex_now 100 25 = Inr res \<and> to_dict ex_post \<in> set (requests res))
   \<and> (\<exists>s. get_summary ex_db ex_now 25 = Inr s \<and> total_requests (summary s) = 2)
   \<and> timestamp ex_get = ex_now - 2 * hour_us
   \<and> get_recent_requests ex_db ex_now 100 24 =
        Inr \<lparr> count_returned = 1, requests = [to_dict ex_get] \<rparr>
   \<and> get_recent_requests ex_db ex_now 100 48 =
        Inr \<lparr> count_returned = 2, requests = [to_dict ex_get, to_dict ex_post] \<rparr>"
proof -
  have p: "ex_post \<in> set (rows ex_db)" "timestamp ex_post = ex_now - 25 * hour_us"
      "timestamp ex_get = ex_now - 2 * hour_us" "int (length (rows ex_db)) \<le> 100"
    by (simp_all add: ex_defs hour_us_def)
  have n: "length (filter (\<lambda>r. ex_now - 25 * hour_us \<le> timestamp r) (rows ex_db)) = 2"
    by (simp add: ex_defs hour_us_def)
  from window_lower_bound_inclusive[OF ex_threshold_25 ex_reachable] p
  have "\<exists>res. get_recent_requests ex_db ex_now 100 25 = Inr res \<and> to_dict ex_post \<in> set (requests res)"
    and "\<exists>s. get_summary ex_db ex_now 25 = Inr s \<and> total_requests (summary s) = 2"
    unfolding n by simp_all
  with p ex_threshold_25 ex_recent_100_24 ex_recent_100_48 show ?thesis by simp
qed

section \<open>Recorder: failures of the store\<close>

text \<open>
  C2. When the commit of the new object raises an exception, \<open>log_response\<close> still
  returns (the response it was given), the exception ends as one ERROR record of the
  logger, the session is rolled back to hold no pending object and no aborted
  transaction, and the table and the rest of the store are as they were.
\<close>

theorem persistence_failure_swallowed:
  assumes "session_commit (session_add (db w) (api_request_of req clk resp)) (utcnow clk) = Inl e"
  shows "snd (log_response w req clk resp) = resp
     \<and> db (fst (log_response w req clk resp)) =
         (db w)\<lparr> session_new := [], transaction_aborted := False \<rparr>
     \<and> rows (db (fst (log_response w req clk resp))) = rows (db w)
     \<and> session_new (db (fst (log_response w req clk resp))) = []
     \<and> logger (fst (log_response w req clk resp)) \<noteq> []
     \<and> last (logger (fst (log_response w req clk resp))) =
          \<lparr> level = ERROR, message = ''Failed to log request to database: '' @ exc_str e \<rparr>
     \<and> error_records (fst (log_response w req clk resp)) = error_records w + 1"
proof -
  have a: "snd (log_response w req clk resp) = resp"
    by (simp add: log_response_def Let_def)
  have b: "db (fst (log_response w req clk resp)) =
         (db w)\<lparr> session_new := [], transaction_aborted := False \<rparr>"
    unfolding log_response_db assms by (simp add: session_rollback_def session_add_def)
  have c: "logger (fst (log_response w req clk resp)) \<noteq> []
     \<and> last (logger (fst (log_response w req clk resp))) =
          \<lparr> level = ERROR, message = ''Failed to log request to database: '' @ exc_str e \<rparr>"
    by (simp add: log_response_logger assms)
  have d: "error_records (fst (log_response w req clk resp)) = error_records w + 1"
    by (simp add: error_records_step assms)
  from a b c d show ?thesis by simp
qed

theorem persistence_failure_swallowed_witness:
  "session_commit (session_add (db (ex_world\<lparr> db := ex_db\<lparr> reachable := False \<rparr> \<rparr>))
       (api_request_of ex_request ex_clock ex_response)) (utcnow ex_clock) = Inl OperationalError
   \<and> snd (log_response (ex_world\<lparr> db := ex_db\<lparr> reachable := False \<rparr> \<rparr>)
            ex_request ex_clock ex_response) = ex_response
   \<and> rows (db (fst (log_response (ex_world\<lparr> db := ex_db\<lparr> reachable := False \<rparr> \<rparr>)
            ex_request ex_clock ex_response))) = [ex_post, ex_get]
   \<and> logger (fst (log_response (ex_world\<lparr> db := ex_db\<lparr> reachable := False \<rparr> \<rparr>)
            ex_request ex_clock ex_response)) =
       [\<lparr> level = ERROR,
          message = ''Failed to log request to database: could not connect to server'' \<rparr>]"
proof -
  have l: "logger (fst (log_response (ex_world\<lparr> db := ex_db\<lparr> reachable := False \<rparr> \<rparr>)
            ex_request ex_clock ex_response)) =
       [\<lparr> level = ERROR,
          message = ''Failed to log request to database: could not connect to server'' \<rparr>]"
    unfolding log_response_logger ex_commit_unreachable
    by (simp add: ex_world_def)
  from persistence_failure_swallowed[OF ex_commit_unreachable] ex_commit_unreachable l
  show ?thesis by (simp add: ex_world_def ex_db_def)
qed

section \<open>Recorder: failures of the sink\<close>

text \<open>
  C3, as the code has it. When the emit to the sink raises, exactly one WARNING record
  for that exception is logged; when no sink is configured, nothing is emitted and no
  WARNING record is logged. In every case the store after \<open>log_response\<close> is the
  one that any other state of the sink would have given: the object is built and
  committed all the same. Whenever that commit succeeds, the store is the one the commit
  returns and no ERROR record is logged; from a session with nothing pending, the table
  then has the new row at its end, with the columns taken from the request and the
  response. The response is returned as it came.
\<close>

theorem sink_failure_isolated:
  "(\<forall>cw e. cloudwatch_logs w = Some cw \<and> put_fault cw = Some e \<longrightarrow>
       filter (\<lambda>l. level l = WARNING) (logger (fst (log_response w req clk resp))) =
         filter (\<lambda>l. level l = WARNING) (logger w)
         @ [\<lparr> level = WARNING, message = ''Failed to log to CloudWatch: '' @ exc_str e \<rparr>])
   \<and> (cloudwatch_logs w = None \<longrightarrow>
       filter (\<lambda>l. level l = WARNING) (logger (fst (log_response w req clk resp))) =
         filter (\<lambda>l. level l = WARNING) (logger w))
   \<and> db (fst (log_response w req clk resp)) =
       db (fst (log_response (w\<lparr> cloudwatch_logs := c \<rparr>) req clk resp))
   \<and> (\<forall>d2. session_commit
               (session_add (db w)
                  \<lparr> endpoint = path req, http_method = request_method req,
                    status_code = response_status_code resp,
                    latency_ms = fl (fl (time_end clk - start_time req) * 1000),
                    ip_address = remote_addr req,
                    user_agent = Some (headers_get (headers req) ''User-Agent'' '''') \<rparr>)
               (utcnow clk) = Inr d2 \<longrightarrow>
          db (fst (log_response w req clk resp)) = d2
        \<and> error_records (fst (log_response w req clk resp)) = error_records w
        \<and> (session_new (db w) = [] \<longrightarrow>
             rows d2 = rows (db w) @
               [\<lparr> endpoint = path req, http_method = request_method req,
                  status_code = response_status_code resp,
                  latency_ms = fl (fl (time_end clk - start_time req) * 1000),
                  ip_address = remote_addr req,
                  user_agent = Some (headers_get (headers req) ''User-Agent'' ''''),
                  row_id = next_id (db w), timestamp = utcnow clk \<rparr>]))
   \<and> snd (log_response w req clk resp) = resp"
proof -
  let ?a = "api_request_of req clk resp"
  have obj: "\<lparr> endpoint = path req, http_method = request_method req,
                    status_code = response_status_code resp,
                    latency_ms = fl (fl (time_end clk - start_time req) * 1000),
                    ip_address = remote_addr req,
                    user_agent = Some (headers_get (headers req) ''User-Agent'' '''') \<rparr> = ?a"
    by (simp add: api_request_of_def)
  have a: "\<forall>cw e. cloudwatch_logs w = Some cw \<and> put_fault cw = Some e \<longrightarrow>
       filter (\<lambda>l. level l = WARNING) (logger (fst (log_response w req clk resp))) =
         filter (\<lambda>l. level l = WARNING) (logger w)
         @ [\<lparr> level = WARNING, message = ''Failed to log to CloudWatch: '' @ exc_str e \<rparr>]"
    by (simp add: warning_records_step)
  have b: "cloudwatch_logs w = None \<longrightarrow>
       filter (\<lambda>l. level l = WARNING) (logger (fst (log_response w req clk resp))) =
         filter (\<lambda>l. level l = WARNING) (logger w)"
    by (simp add: warning_records_step)
  have c: "db (fst (log_response w req clk resp)) =
       db (fst (log_response (w\<lparr> cloudwatch_logs := c \<rparr>) req clk resp))"
    by (simp add: log_response_sink_free)
  have d: "\<forall>d2. session_commit (session_add (db w) ?a) (utcnow clk) = Inr d2 \<longrightarrow>
          db (fst (log_response w req clk resp)) = d2
        \<and> error_records (fst (log_response w req clk resp)) = error_records w
        \<and> (session_new (db w) = [] \<longrightarrow>
             rows d2 = rows (db w) @
               [\<lparr> endpoint = path req, http_method = request_method req,
                  status_code = response_status_code resp,
                  latency_ms = fl (fl (time_end clk - start_time req) * 1000),
                  ip_address = remote_addr req,
                  user_agent = Some (headers_get (headers req) ''User-Agent'' ''''),
                  row_id = next_id (db w), timestamp = utcnow clk \<rparr>])"
  proof (intro allI impI conjI)
    fix d2 assume c2: "session_commit (session_add (db w) ?a) (utcnow clk) = Inr d2"
    show "db (fst (log_response w req clk resp)) = d2"
      unfolding log_response_db c2 by simp
    show "error_records (fst (log_response w req clk resp)) = error_records w"
      unfolding error_records_step c2 by simp
    assume n: "session_new (db w) = []"
    from c2 have "d2 = (db w)\<lparr> rows := rows (db w) @ [persisted_row ?a (next_id (db w)) (utcnow clk)],
                   next_id := next_id (db w) + 1 \<rparr>"
      unfolding commit_single[OF n] by (auto split: if_splits)
    then show "rows d2 = rows (db w) @
               [\<lparr> endpoint = path req, http_method = request_method req,
                  status_code = response_status_code resp,
                  latency_ms = fl (fl (time_end clk - start_time req) * 1000),
                  ip_address = remote_addr req,
                  user_agent = Some (headers_get (headers req) ''User-Agent'' ''''),
                  row_id = next_id (db w), timestamp = utcnow clk \<rparr>]"
      by (simp add: persisted_row_def api_request_of_def)
  qed
  have e: "snd (log_response w req clk resp) = resp"
    by (simp add: log_response_def Let_def)
  from a b c d e show ?thesis unfolding obj by (intro conjI)
qed

theorem sink_failure_isolated_witness:
  "cloudwatch_logs (ex_world\<lparr> cloudwatch_logs := Some \<lparr> put_fault = Some (ClientError ''throttled''), events = [] \<rparr> \<rparr>)
      = Some \<lparr> put_fault = Some (ClientError ''throttled''), events = [] \<rparr>
   \<and> put_fault \<lparr> put_fault = Some (ClientError ''throttled''), events = [] \<rparr> = Some (ClientError ''throttled'')
   \<and> filter (\<lambda>l. level l = WARNING)
        (logger (fst (log_response
           (ex_world\<lparr> cloudwatch_logs := Some \<lparr> put_fault = Some (ClientError ''throttled''), events = [] \<rparr> \<rparr>)
           ex_request ex_clock ex_response))) =
        [\<lparr> level = WARNING, message = ''Failed to log to CloudWatch: throttled'' \<rparr>]
   \<and> session_new (db ex_world) = []
   \<and> session_commit
        (session_add (db (ex_world\<lparr> cloudwatch_logs :=
                                  Some \<lparr> put_fault = Some (ClientError ''throttled''), events = [] \<rparr> \<rparr>))
           \<lparr> endpoint = path ex_request, http_method = request_method ex_request,
             status_code = response_status_code ex_response,
             latency_ms = fl (fl (time_end ex_clock - start_time ex_request) * 1000),
             ip_address = remote_addr ex_request,
             user_agent = Some (headers_get (headers ex_request) ''User-Agent'' '''') \<rparr>)
        (utcnow ex_clock) =
      Inr \<lparr> rows = [ex_post, ex_get,
                    \<lparr> endpoint = ''/x'', http_method = ''GET'', status_code = 200, latency_ms = 1000,
                      ip_address = Some ''10.0.0.1'', user_agent = Some ''curl'',
                      row_id = 3, timestamp = 63900000000000000 \<rparr>],
            next_id = 4, reachable = True, session_new = [], transaction_aborted = False \<rparr>
   \<and> rows (db (fst (log_response
           (ex_world\<lparr> cloudwatch_logs := Some \<lparr> put_fault = Some (ClientError ''throttled''), events = [] \<rparr> \<rparr>)
           ex_request ex_clock ex_response))) =
        [ex_post, ex_get,
         \<lparr> endpoint = ''/x'', http_method = ''GET'', status_code = 200, latency_ms = 1000,
           ip_address = Some ''10.0.0.1'', user_agent = Some ''curl'',
           row_id = 3, timestamp = 63900000000000000 \<rparr>]
   \<and> error_records (fst (log_response
           (ex_world\<lparr> cloudwatch_logs := Some \<lparr> put_fault = Some (ClientError ''throttled''), events = [] \<rparr> \<rparr>)
           ex_request ex_clock ex_response)) = 0"
proof -
  let ?cw = "\<lparr> put_fault = Some (ClientError ''throttled''), events = [] \<rparr>"
  let ?w = "ex_world\<lparr> cloudwatch_logs := Some ?cw \<rparr>"
  have h: "cloudwatch_logs ?w = Some ?cw" "put_fault ?cw = Some (ClientError ''throttled'')"
    "session_new (db ex_world) = []" "logger ?w = []" "error_records ?w = 0"
    by (simp_all add: ex_world_def ex_db_def error_records_def)
  note t = sink_failure_isolated[of ?w ex_request ex_clock ex_response "Some ?cw"]
  note t1 = t[THEN conjunct1, rule_format, OF conjI[OF h(1) h(2)]]
  note t4 = t[THEN conjunct2, THEN conjunct2, THEN conjunct2, THEN conjunct1, rule_format,
      OF ex_commit_accepts]
  have warn: "filter (\<lambda>l. level l = WARNING)
        (logger (fst (log_response ?w ex_request ex_clock ex_response))) =
        [\<lparr> level = WARNING, message = ''Failed to log to CloudWatch: throttled'' \<rparr>]"
    using t1 by (simp add: ex_world_def)
  from t4 have d: "db (fst (log_response ?w ex_request ex_clock ex_response)) =
      \<lparr> rows = [ex_post, ex_get,
                    \<lparr> endpoint = ''/x'', http_method = ''GET'', status_code = 200, latency_ms = 1000,
                      ip_address = Some ''10.0.0.1'', user_agent = Some ''curl'',
                      row_id = 3, timestamp = 63900000000000000 \<rparr>],
            next_id = 4, reachable = True, session_new = [], transaction_aborted = False \<rparr>"
    and e: "error_records (fst (log_response ?w ex_request ex_clock ex_response)) = error_records ?w"
    by blast+
  show ?thesis using h warn ex_commit_accepts d e by simp
qed

text \<open>
  With no sink configured, a cycle that persists its record leaves the logger empty:
  the unconfigured sink is not logged as a warning.
\<close>

theorem sink_disabled_logs_no_warning:
  "logger (fst (log_response ex_world ex_request ex_clock ex_response)) = []
   \<and> cloudwatch_logs ex_world = None"
  unfolding log_response_logger
  by (simp add: ex_world_def commit_single ex_db_def ex_api_request has_nul_def
      column_violation_def)

section \<open>Recorder: one record per cycle\<close>

text \<open>
  C6. Serving a sequence of cycles from a session with nothing pending only appends
  to the table: the rows before are a prefix of the rows after, so no row is changed or
  removed. Every cycle adds either one row or one ERROR record of the logger; when no
  persistence failure was logged, the table has grown by exactly the number of cycles.
  When the primary keys were distinct and below the sequence before, those of all rows
  are distinct afterwards.
\<close>

theorem serve_appends_one_record_per_cycle:
  assumes "session_new (db w) = []"
  shows "prefix (rows (db w)) (rows (db (serve w cs)))
     \<and> length (rows (db (serve w cs))) + error_records (serve w cs)
        = length (rows (db w)) + error_records w + length cs
     \<and> (error_records (serve w cs) = error_records w \<longrightarrow>
          length (rows (db (serve w cs))) = length (rows (db w)) + length cs)
     \<and> (primary_key_ok (db w) \<longrightarrow> distinct (map row_id (rows (db (serve w cs)))))"
proof -
  note i = serve_invariant[OF assms, of cs]
  from i have a: "prefix (rows (db w)) (rows (db (serve w cs)))" by simp
  from i have b: "length (rows (db (serve w cs))) + error_records (serve w cs)
        = length (rows (db w)) + error_records w + length cs"
    by simp
  from b have c: "error_records (serve w cs) = error_records w \<longrightarrow>
          length (rows (db (serve w cs))) = length (rows (db w)) + length cs"
    by simp
  from i have "primary_key_ok (db w) \<longrightarrow> primary_key_ok (db (serve w cs))" by simp
  then have d: "primary_key_ok (db w) \<longrightarrow> distinct (map row_id (rows (db (serve w cs))))"
    by (simp add: primary_key_ok_def)
  from a b c d show ?thesis by simp
qed

lemma ex_cycle_1:
  "fst (log_response ex_world ex_request ex_clock ex_response) =
     \<lparr> cloudwatch_logs = None,
       db = \<lparr> rows = [ex_post, ex_get, persisted_row (api_request_of ex_request ex_clock ex_response) 3 63900000000000000],
              next_id = 4, reachable = True, session_new = [],
              transaction_aborted = False \<rparr>,
       logger = [] \<rparr>"
  by (simp add: log_response_def Let_def ex_world_def ex_db_def session_add_def session_commit_def
      db_insert_cases column_violation_def has_nul_def api_request_of_def ex_request_def
      ex_response_def
      ex_clock_def headers_get_def persisted_row_def session_rollback_def)

lemma ex_cycle_2:
  "fst (log_response
         \<lparr> cloudwatch_logs = None,
           db = \<lparr> rows = [ex_post, ex_get, persisted_row (api_request_of ex_request ex_clock ex_response) 3 63900000000000000],
                  next_id = 4, reachable = True, session_new = [],
              transaction_aborted = False \<rparr>,
           logger = [] \<rparr> ex_request ex_clock ex_response) =
     \<lparr> cloudwatch_logs = None,
       db = \<lparr> rows = [ex_post, ex_get,
                      persisted_row (api_request_of ex_request ex_clock ex_response) 3 63900000000000000,
                      persisted_row (api_request_of ex_request ex_clock ex_response) 4 63900000000000000],
              next_id = 5, reachable = True, session_new = [],
              transaction_aborted = False \<rparr>,
       logger = [] \<rparr>"
  by (simp add: log_response_def Let_def session_add_def session_commit_def
      db_insert_cases column_violation_def has_nul_def api_request_of_def ex_request_def
      ex_response_def
      ex_clock_def headers_get_def persisted_row_def session_rollback_def)

theorem serve_appends_one_record_per_cycle_witness:
  "session_new (db ex_world) = [] \<and> primary_key_ok (db ex_world)
   \<and> error_records
        (serve ex_world [(ex_request, ex_clock, ex_response), (ex_request, ex_clock, ex_response)])
      = error_records ex_world
   \<and> length (rows (db ex_world)) = 2
   \<and> map row_id (rows (db
        (serve ex_world [(ex_request, ex_clock, ex_response), (ex_request, ex_clock, ex_response)])))
      = [1, 2, 3, 4]
   \<and> distinct (map row_id (rows (db
        (serve ex_world [(ex_request, ex_clock, ex_response), (ex_request, ex_clock, ex_response)]))))"
proof -
  let ?cs = "[(ex_request, ex_clock, ex_response), (ex_request, ex_clock, ex_response)]"
  have s: "serve ex_world ?cs =
     \<lparr> cloudwatch_logs = None,
       db = \<lparr> rows = [ex_post, ex_get,
                      persisted_row (api_request_of ex_request ex_clock ex_response) 3 63900000000000000,
                      persisted_row (api_request_of ex_request ex_clock ex_response) 4 63900000000000000],
              next_id = 5, reachable = True, session_new = [],
              transaction_aborted = False \<rparr>,
       logger = [] \<rparr>"
    by (simp add: ex_cycle_1 ex_cycle_2)
  have h1: "session_new (db ex_world) = []" by (simp add: ex_world_def ex_db_def)
  have h2: "primary_key_ok (db ex_world)"
    by (simp add: primary_key_ok_def ex_world_def ex_db_def ex_get_def ex_post_def)
  have h3: "error_records (serve ex_world ?cs) = error_records ex_world"
    unfolding s by (simp add: error_records_def ex_world_def)
  have ids: "map row_id (rows (db (serve ex_world ?cs))) = [1, 2, 3, 4]"
    unfolding s by (simp add: persisted_row_def ex_get_def ex_post_def)
  from serve_appends_one_record_per_cycle[OF h1, of ?cs] h1 h2 h3 ids
  show ?thesis by (simp add: ex_world_def ex_db_def)
qed

end
